theory Spec2Isabelle
  imports Main "HOL-Library.Sublist"
begin

section \<open>JavaScript values and the built-in operations the page script relies on\<close>

text \<open>
  The script (\<^verbatim>\<open>static/real_app.js\<close> and its deployed variant with the contacts
  directory) renders JSON payloads into HTML strings. A payload value is a JSON value;
  \<open>JUndefined\<close> is what reading a missing property yields. Numbers are the
  integer-valued ones in the range where the arithmetic of the script and the decimal
  rendering are exact (a magnitude below \<open>2 ^ 53\<close>); fractions, infinities and NaN are
  not represented. Strings are byte sequences (UTF-8), so the em dash the script uses as
  its "unknown" sentinel is three bytes and the middle dot two. An object is the
  association list of its own properties, the first entry of a key being the effective
  one.
\<close>

datatype jsval =
    JUndefined
  | JNull
  | JBool bool
  | JNum int
  | JStr string
  | JArr "jsval list"
  | JObj "(string \<times> jsval) list"

text \<open>
  What an expression evaluation can do: return a value, throw, or leave the fragment of
  JavaScript that is modelled (\<open>Unmodelled\<close>: the numeric coercion of a value that is
  not a number, which no catch block handles in the model).
\<close>

datatype js_error = TypeError | SyntaxError | FetchFailed | Error string

datatype 'a outcome = Returns 'a | Throws js_error | Unmodelled

definition and_then :: "'a outcome \<Rightarrow> ('a \<Rightarrow> 'b outcome) \<Rightarrow> 'b outcome" where
  "and_then x f = (case x of Returns v \<Rightarrow> f v | Throws e \<Rightarrow> Throws e | Unmodelled \<Rightarrow> Unmodelled)"

fun all_of :: "'a outcome list \<Rightarrow> 'a list outcome" where
  "all_of [] = Returns []"
| "all_of (x # xs) = and_then x (\<lambda>v. and_then (all_of xs) (\<lambda>vs. Returns (v # vs)))"

definition emdash :: string where
  \<open>emdash = [CHR 0xE2, CHR 0x80, CHR 0x94]\<close>

definition middot :: string where
  \<open>middot = [CHR 0xC2, CHR 0xB7]\<close>

text \<open>Truthiness (\<^verbatim>\<open>!x\<close>, \<^verbatim>\<open>x ? a : b\<close>, \<^verbatim>\<open>Boolean\<close>) and the operator \<^verbatim>\<open>||\<close>.\<close>

fun truthy :: "jsval \<Rightarrow> bool" where
  "truthy JUndefined = False"
| "truthy JNull = False"
| "truthy (JBool b) = b"
| "truthy (JNum n) = (n \<noteq> 0)"
| "truthy (JStr s) = (s \<noteq> [])"
| "truthy (JArr xs) = True"
| "truthy (JObj kvs) = True"

definition js_or :: "jsval \<Rightarrow> jsval \<Rightarrow> jsval" where
  "js_or a b = (if truthy a then a else b)"

text \<open>Decimal rendering of an integer-valued number inside a template literal.\<close>

definition digit_char :: "nat \<Rightarrow> char" where
  "digit_char d =
     (if d = 0 then CHR ''0'' else if d = 1 then CHR ''1'' else if d = 2 then CHR ''2''
      else if d = 3 then CHR ''3'' else if d = 4 then CHR ''4'' else if d = 5 then CHR ''5''
      else if d = 6 then CHR ''6'' else if d = 7 then CHR ''7'' else if d = 8 then CHR ''8''
      else CHR ''9'')"

fun show_nat :: "nat \<Rightarrow> string" where
  "show_nat n = (if n < 10 then [digit_char n] else show_nat (n div 10) @ [digit_char (n mod 10)])"

declare show_nat.simps [simp del]

definition show_int :: "int \<Rightarrow> string" where
  "show_int i = (if i < 0 then CHR ''-'' # show_nat (nat (- i)) else show_nat (nat i))"

fun join :: "string \<Rightarrow> string list \<Rightarrow> string" where
  "join sep [] = []"
| "join sep [x] = x"
| "join sep (x # y # ys) = x @ sep @ join sep (y # ys)"

text \<open>
  String conversion in a template literal. An array is its elements joined by commas,
  null and undefined elements contributing nothing; an object is \<^verbatim>\<open>[object Object]\<close>
  unless it has an own property \<^verbatim>\<open>toString\<close>, which a JSON value cannot make
  callable, so that the conversion throws.
\<close>

fun to_string :: "jsval \<Rightarrow> string outcome"
  and elem_strings :: "jsval list \<Rightarrow> string list outcome" where
  "to_string JUndefined = Returns ''undefined''"
| "to_string JNull = Returns ''null''"
| "to_string (JBool b) = Returns (if b then ''true'' else ''false'')"
| "to_string (JNum n) = Returns (show_int n)"
| "to_string (JStr s) = Returns s"
| "to_string (JArr xs) = and_then (elem_strings xs) (\<lambda>ss. Returns (join '','' ss))"
| "to_string (JObj kvs) =
     (if ''toString'' \<in> set (map fst kvs) then Throws TypeError else Returns ''[object Object]'')"
| "elem_strings [] = Returns []"
| "elem_strings (x # xs) =
     and_then (if x = JUndefined \<or> x = JNull then Returns [] else to_string x)
       (\<lambda>s. and_then (elem_strings xs) (\<lambda>ss. Returns (s # ss)))"

text \<open>
  Reading a property by one of the field names the script uses (none of them is
  inherited from a prototype). Reading from null or undefined throws. The length of a
  string is given in bytes; the script only compares a length with 0.
\<close>

fun get :: "jsval \<Rightarrow> string \<Rightarrow> jsval outcome" where
  "get JUndefined k = Throws TypeError"
| "get JNull k = Throws TypeError"
| "get (JObj kvs) k = Returns (case map_of kvs k of Some v \<Rightarrow> v | None \<Rightarrow> JUndefined)"
| "get (JArr xs) k = Returns (if k = ''length'' then JNum (int (length xs)) else JUndefined)"
| "get (JStr s) k = Returns (if k = ''length'' then JNum (int (length s)) else JUndefined)"
| "get (JBool b) k = Returns JUndefined"
| "get (JNum n) k = Returns JUndefined"

text \<open>
  \<open>field v k\<close> reads a property where the read cannot throw: \<open>v\<close> came out of
  \<^verbatim>\<open>x || {}\<close>, or an earlier read from \<open>v\<close> in the same run of statements has
  succeeded.
\<close>

definition field :: "jsval \<Rightarrow> string \<Rightarrow> jsval" where
  "field v k = (case get v k of Returns x \<Rightarrow> x | _ \<Rightarrow> JUndefined)"

section \<open>The helpers \<^verbatim>\<open>kv\<close>, \<^verbatim>\<open>pill\<close> and \<^verbatim>\<open>formatAgo\<close>\<close>

definition kv :: "string \<Rightarrow> jsval \<Rightarrow> string outcome" where
  \<open>kv label val =
     and_then (to_string (js_or val (JStr emdash)))
       (\<lambda>v. Returns (''<div class="mb-2"><div class="label">'' @ label
                       @ ''</div><div class="value">'' @ v @ ''</div></div>''))\<close>

definition pill :: "jsval \<Rightarrow> jsval \<Rightarrow> string outcome" where
  \<open>pill code count =
     and_then (to_string (js_or code (JStr emdash))) (\<lambda>c.
     and_then (to_string count) (\<lambda>n.
       Returns (''<span class="badge rounded-pill text-bg-primary me-2 badge-airport">'' @ c
                @ '' <span class="ms-1 text-bg-dark badge">'' @ n @ ''</span></span>'')))\<close>

text \<open>
  \<open>formatAgo now epoch\<close>: \<open>now\<close> is the reading of \<^verbatim>\<open>Date.now()\<close> in milliseconds.
  A truthy \<open>epoch\<close> that is not a number would be coerced by \<^verbatim>\<open>epoch * 1000\<close>;
  that coercion is not modelled.
\<close>

definition formatAgo :: "int \<Rightarrow> jsval \<Rightarrow> string outcome" where
  "formatAgo now epoch =
     (if \<not> truthy epoch then Returns emdash
      else case epoch of
        JNum e \<Rightarrow>
          (let diffMs = now - e * 1000;
               s = max 0 (diffMs div 1000);
               m = s div 60;
               h = m div 60;
               d = h div 24
           in if d \<ge> 1 then Returns (show_int d @ '' day'' @ (if d > 1 then ''s'' else '''') @ '' ago'')
              else if h \<ge> 1 then Returns (show_int h @ '' hr'' @ (if h > 1 then ''s'' else '''') @ '' ago'')
              else if m \<ge> 1 then Returns (show_int m @ '' min'' @ (if m > 1 then ''s'' else '''') @ '' ago'')
              else Returns (show_int s @ '' sec'' @ (if s > 1 then ''s'' else '''') @ '' ago''))
      | _ \<Rightarrow> Unmodelled)"


section \<open>The section renderers of the submit handler\<close>

text \<open>
  The rendering statements of the submit handler are the same text in both variants
  of the script (the deployed variant only adds a \<^verbatim>\<open>console.log\<close> after the ADS-B
  link), so one definition embeds each of them. Every card is an array of \<^verbatim>\<open>kv\<close>
  calls joined by the empty string; the array elements are evaluated from left to
  right and the first one that throws decides.
\<close>

definition joined :: "string outcome list \<Rightarrow> string outcome" where
  "joined parts = and_then (all_of parts) (\<lambda>ps. Returns (concat ps))"

text \<open>\<^verbatim>\<open>u ? `Source: <a href="${u}" target="_blank" rel="noopener">NAME</a>` : ''\<close>\<close>

definition source_link :: "jsval \<Rightarrow> string \<Rightarrow> string outcome" where
  \<open>source_link url name =
     (if truthy url
      then and_then (to_string url) (\<lambda>u.
             Returns (''Source: <a href="'' @ u @ ''" target="_blank" rel="noopener">'' @ name @ ''</a>''))
      else Returns [])\<close>

text \<open>\<^verbatim>\<open>[a, b].filter(Boolean).join(sep) || DASH\<close>\<close>

definition filter_join :: "jsval list \<Rightarrow> string \<Rightarrow> jsval outcome" where
  "filter_join xs sep =
     and_then (elem_strings (filter truthy xs))
       (\<lambda>ss. Returns (js_or (JStr (join sep ss)) (JStr emdash)))"

text \<open>
  \<^verbatim>\<open>(x || []).map(f)\<close>, \<^verbatim>\<open>(x || []).forEach(f)\<close> and \<^verbatim>\<open>(x || []).join(sep)\<close>: a truthy
  \<open>x\<close> that is not an array has no callable \<^verbatim>\<open>map\<close>, \<^verbatim>\<open>forEach\<close> or \<^verbatim>\<open>join\<close>.
\<close>

definition js_map :: "jsval \<Rightarrow> (jsval \<Rightarrow> 'a outcome) \<Rightarrow> 'a list outcome" where
  "js_map v f = (case v of JArr xs \<Rightarrow> all_of (map f xs) | _ \<Rightarrow> Throws TypeError)"

definition js_join :: "jsval \<Rightarrow> string \<Rightarrow> string outcome" where
  "js_join v sep =
     (case v of JArr xs \<Rightarrow> and_then (elem_strings xs) (\<lambda>ss. Returns (join sep ss))
      | _ \<Rightarrow> Throws TypeError)"

definition fr24Card_html :: "jsval \<Rightarrow> string outcome" where
  \<open>fr24Card_html data =
     and_then (get data ''fr24'') (\<lambda>v.
       let fr = js_or v (JObj []) in
       joined [
         and_then (to_string (field data ''tail_number'')) (\<lambda>t.
           kv ''Tail number'' (JStr (''<strong>'' @ t @ ''</strong>''))),
         kv ''Aircraft'' (field fr ''model''),
         kv ''Airline'' (field fr ''airline''),
         kv ''Operator'' (field fr ''operator''),
         kv ''Type Code'' (field fr ''type_code''),
         kv ''Code (Airline)'' (field fr ''airline_code''),
         kv ''Code (Operator)'' (field fr ''operator_code''),
         kv ''Mode S (ICAO hex)'' (js_or (field fr ''mode_s'') (JStr emdash)),
         kv ''Serial Number (MSN)'' (js_or (field fr ''serial_msn'') (JStr emdash))])\<close>

definition fr24Link_html :: "jsval \<Rightarrow> string outcome" where
  "fr24Link_html data =
     and_then (get data ''fr24'') (\<lambda>v.
       source_link (field (js_or v (JObj [])) ''source_url'') ''FR24'')"

text \<open>\<^verbatim>\<open>rg.fractional_owner === true ? 'YES' : (rg.fractional_owner === false ? 'NO' : DASH)\<close>\<close>

definition fractional_owner_text :: "jsval \<Rightarrow> string" where
  "fractional_owner_text v =
     (if v = JBool True then ''YES'' else if v = JBool False then ''NO'' else emdash)"

definition regCard_html :: "jsval \<Rightarrow> string outcome" where
  "regCard_html data =
     and_then (get data ''registry'') (\<lambda>v.
       let rg = js_or v (JObj []) in
       joined [
         kv ''Owner'' (field rg ''owner''),
         kv ''Status'' (field rg ''status''),
         kv ''Airworthiness Class'' (field rg ''airworthiness_class''),
         kv ''Certificate Issue Date'' (field rg ''certificate_issue_date''),
         kv ''Airworthiness Date'' (field rg ''airworthiness_date''),
         kv ''Expiration'' (field rg ''expiration''),
         kv ''Engine'' (field rg ''engine''),
         kv ''Serial Number'' (field rg ''serial_number''),
         kv ''Model Year'' (field rg ''model_year''),
         kv ''Seats'' (field rg ''seats''),
         kv ''Engines'' (field rg ''engines_count''),
         kv ''Fractional Owner'' (JStr (fractional_owner_text (field rg ''fractional_owner'')))])"

definition regLink_html :: "jsval \<Rightarrow> string outcome" where
  "regLink_html data =
     and_then (get data ''registry'') (\<lambda>v.
       source_link (field (js_or v (JObj [])) ''source_url'') ''FAA / Registry'')"

definition adsbCard_html :: "int \<Rightarrow> jsval \<Rightarrow> string outcome" where
  "adsbCard_html now data =
     and_then (get data ''adsb'') (\<lambda>v.
       let ad = js_or v (JObj []) in
       joined [
         kv ''Callsign'' (field ad ''callsign''),
         kv ''ICAO hex'' (field ad ''hex''),
         kv ''Registration'' (js_or (field ad ''registration'') (field data ''tail_number'')),
         and_then (filter_join [field ad ''icao_type'', field ad ''type_full''] ('' '' @ middot @ '' ''))
           (kv ''Type (ICAO / Full)''),
         and_then (filter_join [field ad ''type_desc'', field ad ''category''] ('' '' @ middot @ '' ''))
           (kv ''Type Desc / Category''),
         (if truthy (field ad ''pos_epoch'')
          then and_then (formatAgo now (field ad ''pos_epoch'')) (\<lambda>a.
                 kv ''Last seen (ADS-B)'' (JStr (a @ '' (epoch)'')))
          else kv ''Last seen (ADS-B)'' (js_or (field ad ''last_seen'') (JStr emdash))),
         kv ''On-ground / Altitude'' (js_or (field ad ''baro_altitude'') (JStr emdash)),
         and_then (filter_join [field ad ''groundspeed_kt'', field ad ''ground_track''] '' / '')
           (kv ''Groundspeed (kt) / Track''),
         and_then (filter_join [field ad ''true_heading'', field ad ''mag_heading''] '' / '')
           (kv ''Heading (true/mag)''),
         kv ''Squawk'' (field ad ''squawk''),
         kv ''Position (WGS84)'' (field ad ''position''),
         and_then (filter_join [field ad ''source'', field ad ''message_rate''] ('' '' @ middot @ '' ''))
           (kv ''Source / Msg rate'')])"

text \<open>\<^verbatim>\<open>data.links?.adsb_globe_url\<close>: the optional chain yields undefined on a missing
  \<^verbatim>\<open>links\<close>.\<close>

definition adsbLink_html :: "jsval \<Rightarrow> string outcome" where
  "adsbLink_html data =
     and_then (get data ''links'') (\<lambda>links.
       source_link
         (if links = JNull \<or> links = JUndefined then JUndefined else field links ''adsb_globe_url'')
         ''ADS-B Exchange (globe)'')"

definition role_badge :: "jsval \<Rightarrow> string outcome" where
  \<open>role_badge r =
     and_then (to_string r) (\<lambda>s.
       Returns (''<span class="badge text-bg-secondary me-2">'' @ s @ ''</span>''))\<close>

definition overnight_badge :: "jsval \<Rightarrow> string outcome" where
  \<open>overnight_badge ov =
     and_then (get ov ''airport'') (\<lambda>airport.
     and_then (to_string (js_or airport (JStr emdash))) (\<lambda>a.
     and_then (to_string (field ov ''overnights'')) (\<lambda>n.
     and_then (to_string (field ov ''avg_ground_hours'')) (\<lambda>g.
       Returns (''<span class="badge text-bg-primary me-2 badge-airport">'' @ a
                @ '' <span class="ms-1 text-bg-dark badge">'' @ n @ '' ovn '' @ middot @ '' ''
                @ g @ ''h avg</span></span>'')))))\<close>

text \<open>\<^verbatim>\<open>Math.round(base.confidence*100)\<close> on an integer-valued confidence is the product.\<close>

definition baseConf_text :: "jsval \<Rightarrow> string" where
  "baseConf_text confidence =
     (case confidence of JNum c \<Rightarrow> '' (conf '' @ show_int (c * 100) @ ''%)'' | _ \<Rightarrow> [])"

definition targetCard_html :: "jsval \<Rightarrow> string outcome" where
  "targetCard_html data =
     and_then (get data ''buyer_roles_hint'') (\<lambda>hint.
     and_then (js_map (js_or hint (JArr [])) role_badge) (\<lambda>role_tags.
       let roles = concat role_tags;
           base = js_or (field data ''likely_base'') (JObj []);
           baseConf = baseConf_text (field base ''confidence'')
       in
     and_then (js_map (js_or (field data ''overnights_top'') (JArr [])) overnight_badge) (\<lambda>ovn_tags.
       let ovn = concat ovn_tags;
           chase = js_or (field data ''chase'') (JObj [(''score'', JNum 0), (''reasons'', JArr [])])
       in
       joined [
         and_then (to_string (js_or (field data ''inferred_operation'') (JStr emdash))) (\<lambda>inferred.
           kv ''Inferred Operation''
             (JStr (inferred @ (if truthy (field data ''is_fractional'') then '' (fractional)'' else [])))),
         kv ''Who to contact'' (js_or (JStr roles) (JStr emdash)),
         (if truthy (field base ''code'')
          then and_then (to_string (field base ''code'')) (\<lambda>code.
                 kv ''Likely operating base'' (JStr (code @ baseConf)))
          else kv ''Likely operating base'' (JStr emdash)),
         kv ''Overnights / avg ground time'' (js_or (JStr ovn) (JStr emdash)),
         and_then (to_string (field chase ''score'')) (\<lambda>score.
         and_then (js_join (js_or (field chase ''reasons'') (JArr [])) '', '') (\<lambda>reasons.
           kv ''Chase score'' (JStr (score @ '' / 5 '' @ emdash @ '' '' @ reasons))))])))"

definition airport_pill :: "jsval \<Rightarrow> string outcome" where
  "airport_pill a = and_then (get a ''code'') (\<lambda>code. pill code (field a ''count''))"

text \<open>
  \<^verbatim>\<open>last.place_code ? (last.place_city ? `${last.place_code} (${last.place_city})` : last.place_code) : DASH\<close>,
  where \<^verbatim>\<open>DASH\<close> stands for the em dash string.
\<close>

definition placeLabel :: "jsval \<Rightarrow> jsval outcome" where
  "placeLabel last_spotted =
     (if truthy (field last_spotted ''place_code'')
      then (if truthy (field last_spotted ''place_city'')
            then and_then (to_string (field last_spotted ''place_code'')) (\<lambda>code.
                 and_then (to_string (field last_spotted ''place_city'')) (\<lambda>city.
                   Returns (JStr (code @ '' ('' @ city @ '')''))))
            else Returns (field last_spotted ''place_code''))
      else Returns (JStr emdash))"

definition top_airports :: "jsval \<Rightarrow> string \<Rightarrow> string outcome" where
  "top_airports data key =
     and_then (js_map (js_or (field data key) (JArr [])) airport_pill) (\<lambda>pills. Returns (concat pills))"

definition activityCard_html :: "int \<Rightarrow> jsval \<Rightarrow> string outcome" where
  "activityCard_html now data =
     and_then (get data ''last_spotted'') (\<lambda>v.
       let last_spotted = js_or v (JObj []) in
     and_then (placeLabel last_spotted) (\<lambda>place.
     and_then (top_airports data ''top_airports_7d'') (\<lambda>top7.
     and_then (top_airports data ''top_airports_30d'') (\<lambda>top30.
     and_then (top_airports data ''top_airports_90d'') (\<lambda>top90.
       joined [
         (if truthy (field last_spotted ''epoch'')
          then and_then (formatAgo now (field last_spotted ''epoch'')) (\<lambda>ago.
               and_then (to_string place) (\<lambda>pl.
                 kv ''Last spotted (overall)'' (JStr (ago @ '' at '' @ pl))))
          else kv ''Last spotted (overall)'' (JStr emdash)),
         kv (''Top airports '' @ emdash @ '' last 7 days'') (js_or (JStr top7) (JStr emdash)),
         kv (''Top airports '' @ emdash @ '' last 30 days'') (js_or (JStr top30) (JStr emdash)),
         kv (''Top airports '' @ emdash @ '' last 90 days'') (js_or (JStr top90) (JStr emdash))])))))"

definition nl :: string where
  "nl = [CHR 0x0A]"

definition flight_row_html :: "jsval \<Rightarrow> string outcome" where
  \<open>flight_row_html f =
     and_then (get f ''date_local'') (\<lambda>date_local.
     and_then (to_string (js_or date_local (JStr emdash))) (\<lambda>d.
     and_then (to_string (js_or (field f ''from_airport'') (JStr emdash))) (\<lambda>src.
     and_then (to_string (js_or (field f ''to_airport'') (JStr emdash))) (\<lambda>dst.
     and_then (to_string (js_or (field f ''callsign'') (JStr emdash))) (\<lambda>cs.
     and_then (to_string (js_or (field f ''flight_time'') (JStr emdash))) (\<lambda>ft.
       Returns (nl @ ''        <td>'' @ d @ ''</td>''
         @ nl @ ''        <td><span class="badge badge-airport text-bg-dark">'' @ src @ ''</span></td>''
         @ nl @ ''        <td><span class="badge badge-airport text-bg-dark">'' @ dst @ ''</span></td>''
         @ nl @ ''        <td>'' @ cs @ ''</td>''
         @ nl @ ''        <td>'' @ ft @ ''</td>''
         @ nl @ ''      '')))))))\<close>


section \<open>The page\<close>

text \<open>
  The elements the script writes. \<open>cards\<close> are the sections filled from the aircraft
  payload (\<^verbatim>\<open>innerHTML\<close> of each element; the rows appended to the flights table).
  The four contact blocks may be missing from the document (the script tests them before
  use), hence the options. \<open>requests\<close> are the URLs passed to \<^verbatim>\<open>fetch\<close>, in order,
  and \<open>console\<close> what was logged.
\<close>

record cards =
  fr24Card :: string
  fr24Link :: string
  regCard :: string
  regLink :: string
  adsbCard :: string
  adsbLink :: string
  targetCard :: string
  activityCard :: string
  flightsTable :: "string list"

datatype log_entry = ConsoleError js_error | ConsoleErrorContacts js_error | ConsoleLog jsval

record page =
  err_hidden :: bool
  err_text :: string
  results_hidden :: bool
  spinner_display :: string
  cards :: cards
  contactsAirline :: "string option"
  domContacts :: "string option"
  occContacts :: "string option"
  otherContacts :: "string option"
  requests :: "string list"
  console :: "log_entry list"

definition showSpinner :: "bool \<Rightarrow> page \<Rightarrow> page" where
  "showSpinner show p = p\<lparr>spinner_display := (if show then ''inline-block'' else ''none'')\<rparr>"

definition setError :: "string \<Rightarrow> page \<Rightarrow> page" where
  "setError msg p =
     (if msg = [] then p\<lparr>err_hidden := True, err_text := []\<rparr>
      else p\<lparr>err_hidden := False, err_text := msg\<rparr>)"

text \<open>
  A run of statements over a state: it completes, or throws leaving the state as it
  was at the throw, or leaves the modelled fragment.
\<close>

datatype 's run = Done 's | Raised js_error 's | Outside

definition assign :: "'a outcome \<Rightarrow> ('a \<Rightarrow> 's \<Rightarrow> 's) \<Rightarrow> 's \<Rightarrow> 's run" where
  "assign rhs store s =
     (case rhs of Returns v \<Rightarrow> Done (store v s) | Throws e \<Rightarrow> Raised e s | Unmodelled \<Rightarrow> Outside)"

definition seq :: "'s run \<Rightarrow> ('s \<Rightarrow> 's run) \<Rightarrow> 's run" where
  "seq r k = (case r of Done s \<Rightarrow> k s | Raised e s \<Rightarrow> Raised e s | Outside \<Rightarrow> Outside)"

definition render_cards :: "int \<Rightarrow> jsval \<Rightarrow> cards \<Rightarrow> cards run" where
  "render_cards now data c0 =
     seq (assign (fr24Card_html data) (\<lambda>h c. c\<lparr>fr24Card := h\<rparr>) c0) (\<lambda>c1.
     seq (assign (fr24Link_html data) (\<lambda>h c. c\<lparr>fr24Link := h\<rparr>) c1) (\<lambda>c2.
     seq (assign (regCard_html data) (\<lambda>h c. c\<lparr>regCard := h\<rparr>) c2) (\<lambda>c3.
     seq (assign (regLink_html data) (\<lambda>h c. c\<lparr>regLink := h\<rparr>) c3) (\<lambda>c4.
     seq (assign (adsbCard_html now data) (\<lambda>h c. c\<lparr>adsbCard := h\<rparr>) c4) (\<lambda>c5.
     assign (adsbLink_html data) (\<lambda>h c. c\<lparr>adsbLink := h\<rparr>) c5)))))"

fun append_rows :: "jsval list \<Rightarrow> cards \<Rightarrow> cards run" where
  "append_rows [] c = Done c"
| "append_rows (f # fs) c =
     seq (assign (flight_row_html f) (\<lambda>h c. c\<lparr>flightsTable := flightsTable c @ [h]\<rparr>) c)
       (append_rows fs)"

definition render_flights :: "jsval \<Rightarrow> cards \<Rightarrow> cards run" where
  "render_flights data c =
     (case get data ''recent_flights'' of
        Unmodelled \<Rightarrow> Outside
      | Throws e \<Rightarrow> Raised e c
      | Returns v \<Rightarrow>
          (case js_or v (JArr []) of
             JArr fs \<Rightarrow> append_rows fs c
           | _ \<Rightarrow> Raised TypeError c))"

definition render_rest :: "int \<Rightarrow> jsval \<Rightarrow> cards \<Rightarrow> cards run" where
  "render_rest now data c0 =
     seq (assign (targetCard_html data) (\<lambda>h c. c\<lparr>targetCard := h\<rparr>) c0) (\<lambda>c1.
     seq (assign (activityCard_html now data) (\<lambda>h c. c\<lparr>activityCard := h\<rparr>) c1)
       (render_flights data))"

section \<open>Requests and responses\<close>

text \<open>
  What a \<^verbatim>\<open>fetch\<close> can come to: the promise rejects, or a response arrives with a
  status and a body that \<^verbatim>\<open>json()\<close> parses (\<open>Some\<close>) or rejects (\<open>None\<close>).
\<close>

datatype fetch_outcome = Rejected | Response nat "jsval option"

definition ok :: "nat \<Rightarrow> bool" where
  "ok status = (200 \<le> status \<and> status \<le> 299)"

text \<open>The first three statements of the outer try block.\<close>

definition primary_data :: "fetch_outcome \<Rightarrow> jsval outcome" where
  "primary_data r =
     (case r of
        Rejected \<Rightarrow> Throws FetchFailed
      | Response status body \<Rightarrow>
          if \<not> ok status then Throws (Error (''HTTP '' @ show_nat status))
          else (case body of None \<Rightarrow> Throws SyntaxError | Some data \<Rightarrow> Returns data))"

text \<open>\<^verbatim>\<open>encodeURIComponent\<close> on the UTF-8 bytes of a well-formed string.\<close>

definition unreserved :: "char \<Rightarrow> bool" where
  "unreserved c =
     (c \<in> set ''ABCDEFGHIJKLMNOPQRSTUVWXYZabcdefghijklmnopqrstuvwxyz0123456789-_.!~*()''
      \<or> c = CHR 0x27)"

definition hex_char :: "nat \<Rightarrow> char" where
  "hex_char d =
     (if d < 10 then digit_char d else if d = 10 then CHR ''A'' else if d = 11 then CHR ''B''
      else if d = 12 then CHR ''C'' else if d = 13 then CHR ''D'' else if d = 14 then CHR ''E''
      else CHR ''F'')"

definition escape_byte :: "char \<Rightarrow> string" where
  "escape_byte c =
     (if unreserved c then [c]
      else [CHR ''%'', hex_char (of_char c div 16), hex_char (of_char c mod 16)])"

definition encodeURIComponent :: "string \<Rightarrow> string" where
  "encodeURIComponent s = concat (map escape_byte s)"

text \<open>
  \<^verbatim>\<open>String.prototype.trim\<close>: the white space and line terminator code points of the
  language, as UTF-8 byte sequences, are removed from both ends.
\<close>

definition white_space :: "string list" where
  "white_space =
     [[CHR 0x09], [CHR 0x0A], [CHR 0x0B], [CHR 0x0C], [CHR 0x0D], [CHR 0x20],
      [CHR 0xC2, CHR 0xA0], [CHR 0xE1, CHR 0x9A, CHR 0x80],
      [CHR 0xE2, CHR 0x80, CHR 0x80], [CHR 0xE2, CHR 0x80, CHR 0x81],
      [CHR 0xE2, CHR 0x80, CHR 0x82], [CHR 0xE2, CHR 0x80, CHR 0x83],
      [CHR 0xE2, CHR 0x80, CHR 0x84], [CHR 0xE2, CHR 0x80, CHR 0x85],
      [CHR 0xE2, CHR 0x80, CHR 0x86], [CHR 0xE2, CHR 0x80, CHR 0x87],
      [CHR 0xE2, CHR 0x80, CHR 0x88], [CHR 0xE2, CHR 0x80, CHR 0x89],
      [CHR 0xE2, CHR 0x80, CHR 0x8A], [CHR 0xE2, CHR 0x80, CHR 0xA8],
      [CHR 0xE2, CHR 0x80, CHR 0xA9], [CHR 0xE2, CHR 0x80, CHR 0xAF],
      [CHR 0xE2, CHR 0x81, CHR 0x9F], [CHR 0xE3, CHR 0x80, CHR 0x80],
      [CHR 0xEF, CHR 0xBB, CHR 0xBF]]"

definition prefix_len :: "string list \<Rightarrow> string \<Rightarrow> nat" where
  "prefix_len ws s =
     (case filter (\<lambda>w. take (length w) s = w) ws of [] \<Rightarrow> 0 | w # _ \<Rightarrow> length w)"

function strip :: "string list \<Rightarrow> string \<Rightarrow> string" where
  "strip ws s = (if prefix_len ws s = 0 then s else strip ws (drop (prefix_len ws s) s))"
  by pat_completeness auto
termination
proof (relation "measure (\<lambda>(ws, s). length s)")
  show "wf (measure (\<lambda>(ws, s). length s))" by simp
next
  fix ws :: "string list" and s :: string
  assume step: "prefix_len ws s \<noteq> 0"
  have "prefix_len ws [] = 0"
  proof (cases "filter (\<lambda>w. take (length w) [] = w) ws")
    case Nil
    then show ?thesis by (simp add: prefix_len_def)
  next
    case (Cons w rest)
    then have "w \<in> set (filter (\<lambda>w. take (length w) [] = w) ws)" by simp
    then have "w = []" by simp
    with Cons show ?thesis by (simp add: prefix_len_def)
  qed
  with step have "s \<noteq> []" by auto
  with step show "((ws, drop (prefix_len ws s) s), (ws, s)) \<in> measure (\<lambda>(ws, s). length s)"
    by simp
qed

declare strip.simps [simp del]

definition trim :: "string \<Rightarrow> string" where
  "trim s = rev (strip (map rev white_space) (rev (strip white_space s)))"

section \<open>The submit handler of \<^verbatim>\<open>static/real_app.js\<close>\<close>

text \<open>
  The handler is asynchronous: it runs up to its \<^verbatim>\<open>await fetch\<close> and resumes when
  the response is there. \<open>on_submit_static\<close> is the part before the suspension (it
  returns the page as it stands while the request is in flight, and the query if a
  request was issued), \<open>on_primary_static\<close> the part after it. The two clock
  readings are those of the \<^verbatim>\<open>Date.now()\<close> calls in the ADS-B card and in the
  activity card.
\<close>

definition empty_cards :: cards where
  "empty_cards = \<lparr>fr24Card = [], fr24Link = [], regCard = [], regLink = [], adsbCard = [],
     adsbLink = [], targetCard = [], activityCard = [], flightsTable = []\<rparr>"

definition reset_static :: "page \<Rightarrow> page" where
  "reset_static p =
     showSpinner True ((setError [] p)\<lparr>results_hidden := True, cards := empty_cards\<rparr>)"

definition aircraft_path :: "string \<Rightarrow> string" where
  "aircraft_path n = ''/api/aircraft?n='' @ encodeURIComponent n @ ''&use_adsb=true''"

text \<open>
  The validation of the query and the request, on the page as the reset left it. The value
  of the input element is a string, so \<^verbatim>\<open>input.value || ''\<close> is the value itself.
\<close>

definition validate_static :: "string \<Rightarrow> page \<Rightarrow> page \<times> string option" where
  "validate_static input_value p1 =
     (let n = trim input_value
      in if n = [] then (showSpinner False (setError ''Please enter an N-number.'' p1), None)
         else (p1\<lparr>requests := requests p1 @ [aircraft_path n]\<rparr>, Some n))"

definition on_submit_static :: "string \<Rightarrow> page \<Rightarrow> page \<times> string option" where
  "on_submit_static input_value p = validate_static input_value (reset_static p)"

text \<open>The outer catch block followed by the finally block.\<close>

definition lookup_failed :: "js_error \<Rightarrow> page \<Rightarrow> page" where
  "lookup_failed err p =
     showSpinner False
       (setError ''Lookup failed. Try again in a moment or verify the N-number.''
          (p\<lparr>console := console p @ [ConsoleError err]\<rparr>))"

definition on_primary_static :: "int \<Rightarrow> int \<Rightarrow> fetch_outcome \<Rightarrow> page \<Rightarrow> page option" where
  "on_primary_static now1 now2 r p =
     (case primary_data r of
        Unmodelled \<Rightarrow> None
      | Throws e \<Rightarrow> Some (lookup_failed e p)
      | Returns data \<Rightarrow>
          (case seq (render_cards now1 data (cards p)) (render_rest now2 data) of
             Outside \<Rightarrow> None
           | Raised e c \<Rightarrow> Some (lookup_failed e (p\<lparr>cards := c\<rparr>))
           | Done c \<Rightarrow> Some (showSpinner False (p\<lparr>cards := c, results_hidden := False\<rparr>))))"

text \<open>What the handler is given from outside: the responses and the clock readings.\<close>

record env =
  primary :: fetch_outcome
  contacts :: fetch_outcome
  now_adsb :: int
  now_activity :: int

definition lookup_static :: "env \<Rightarrow> string \<Rightarrow> page \<Rightarrow> page option" where
  "lookup_static ev input_value p =
     (case on_submit_static input_value p of
        (p1, None) \<Rightarrow> Some p1
      | (p1, Some n) \<Rightarrow> on_primary_static (now_adsb ev) (now_activity ev) (primary ev) p1)"

section \<open>The submit handler of the variant with the contacts directory\<close>

definition API_BASE :: string where
  "API_BASE = ''https://demo-flight.onrender.com''"

definition contact_row :: "jsval \<Rightarrow> string outcome" where
  \<open>contact_row c =
     and_then (get c ''name'') (\<lambda>nm.
       let name = js_or nm (JStr emdash);
           title = field c ''title''
       in
     and_then (if truthy (field c ''email'')
               then and_then (to_string (field c ''email'')) (\<lambda>e.
                      Returns [JStr (''<a href="mailto:'' @ e @ ''">'' @ e @ ''</a>'')])
               else Returns []) (\<lambda>email_piece.
       let phone = js_or (field c ''corporate_phone'') (field c ''phone'');
           company = field c ''company'';
           pieces = (if truthy title then [title] else []) @ email_piece
                    @ (if truthy phone then [phone] else [])
                    @ (if truthy company then [company] else [])
       in
     and_then (elem_strings pieces) (\<lambda>ss.
       let details = js_or (JStr (join ('' '' @ middot @ '' '') ss)) (JStr emdash) in
     and_then (to_string name) (\<lambda>n.
     and_then (to_string details) (\<lambda>d.
       Returns (''<div class="mb-1"><span class="value">'' @ n
                @ ''</span><span class="ms-1 muted">'' @ emdash @ '' '' @ d @ ''</span></div>''))))))\<close>

text \<open>
  \<open>renderContactsGroup\<close> returns the new content of the container (\<open>None\<close>: there is
  no container and nothing is written).
\<close>

definition renderContactsGroup :: "string option \<Rightarrow> string \<Rightarrow> jsval \<Rightarrow> string option outcome" where
  \<open>renderContactsGroup container label list =
     (if container = None then Returns None
      else if \<not> truthy list \<or> get list ''length'' = Returns (JNum 0)
      then and_then (kv label (JStr ''No contacts found'')) (\<lambda>h. Returns (Some h))
      else and_then (js_map list contact_row) (\<lambda>rows.
             Returns (Some (''<div class="mb-1 fw-semibold">'' @ label @ ''</div>'' @ concat rows))))\<close>

definition clear_block :: "string option \<Rightarrow> string option" where
  "clear_block el = (case el of None \<Rightarrow> None | Some h \<Rightarrow> Some [])"

text \<open>Writing \<^verbatim>\<open>innerHTML\<close> of a contact block; on a missing element it throws.\<close>

definition set_block :: "string option \<Rightarrow> string \<Rightarrow> string option outcome" where
  "set_block el h = (case el of None \<Rightarrow> Throws TypeError | Some old \<Rightarrow> Returns (Some h))"

definition reset_demo :: "page \<Rightarrow> page" where
  "reset_demo p =
     showSpinner True
       ((setError [] p)\<lparr>results_hidden := True, cards := empty_cards,
          contactsAirline := clear_block (contactsAirline p),
          domContacts := clear_block (domContacts p),
          occContacts := clear_block (occContacts p),
          otherContacts := clear_block (otherContacts p)\<rparr>)"

definition validate_demo :: "string \<Rightarrow> page \<Rightarrow> page \<times> string option" where
  "validate_demo input_value p1 =
     (let n = trim input_value
      in if n = [] then (showSpinner False (setError ''Please enter an N-number.'' p1), None)
         else (p1\<lparr>requests := requests p1 @ [API_BASE @ aircraft_path n]\<rparr>, Some n))"

definition on_submit_demo :: "string \<Rightarrow> page \<Rightarrow> page \<times> string option" where
  "on_submit_demo input_value p = validate_demo input_value (reset_demo p)"

definition contacts_url :: "string \<Rightarrow> string" where
  "contacts_url n = API_BASE @ ''/api/contacts-by-tail?n='' @ encodeURIComponent n"

definition blocks_present :: "page \<Rightarrow> bool" where
  "blocks_present p =
     (contactsAirline p \<noteq> None \<and> domContacts p \<noteq> None \<and> occContacts p \<noteq> None
      \<and> otherContacts p \<noteq> None)"

text \<open>
  After the aircraft response: the cards, and, when the four contact blocks exist, the
  contacts request (the flag says that the handler is suspended on it).
\<close>

definition on_primary_demo ::
  "int \<Rightarrow> int \<Rightarrow> string \<Rightarrow> fetch_outcome \<Rightarrow> page \<Rightarrow> (page \<times> bool) option" where
  "on_primary_demo now1 now2 n r p =
     (case primary_data r of
        Unmodelled \<Rightarrow> None
      | Throws e \<Rightarrow> Some (lookup_failed e p, False)
      | Returns data \<Rightarrow>
          (case render_cards now1 data (cards p) of
             Outside \<Rightarrow> None
           | Raised e c \<Rightarrow> Some (lookup_failed e (p\<lparr>cards := c\<rparr>), False)
           | Done c \<Rightarrow>
               let p1 = p\<lparr>cards := c, console := console p @ [ConsoleLog (field data ''links'')]\<rparr>
               in (case render_rest now2 data c of
                     Outside \<Rightarrow> None
                   | Raised e c' \<Rightarrow> Some (lookup_failed e (p1\<lparr>cards := c'\<rparr>), False)
                   | Done c' \<Rightarrow>
                       let p2 = p1\<lparr>cards := c'\<rparr>
                       in if blocks_present p2
                          then Some (p2\<lparr>requests := requests p2 @ [contacts_url n]\<rparr>, True)
                          else Some (showSpinner False (p2\<lparr>results_hidden := False\<rparr>), False))))"

text \<open>The body of the inner try block once the contacts response is parsed.\<close>

definition render_contacts :: "jsval \<Rightarrow> page \<Rightarrow> page run" where
  \<open>render_contacts cdata p0 =
     (case get cdata ''contacts'' of
        Unmodelled \<Rightarrow> Outside
      | Throws e \<Rightarrow> Raised e p0
      | Returns v \<Rightarrow>
          let c = js_or v (JObj []);
              airline = js_or (field c ''airline'') (field cdata ''airline'')
          in
          seq (if truthy airline
               then assign (and_then (to_string airline) (\<lambda>a.
                              set_block (contactsAirline p0) (''Airline: <strong>'' @ a @ ''</strong>'')))
                      (\<lambda>h p. p\<lparr>contactsAirline := h\<rparr>) p0
               else Done p0) (\<lambda>p1.
          seq (assign (renderContactsGroup (domContacts p1)
                         ''Director of Maintenance / Maintenance'' (field c ''dom''))
                 (\<lambda>h p. p\<lparr>domContacts := h\<rparr>) p1) (\<lambda>p2.
          seq (assign (renderContactsGroup (occContacts p2) ''OCC / Dispatch'' (field c ''occ''))
                 (\<lambda>h p. p\<lparr>occContacts := h\<rparr>) p2) (\<lambda>p3.
          assign (renderContactsGroup (otherContacts p3) ''Other relevant contacts'' (field c ''other''))
            (\<lambda>h p. p\<lparr>otherContacts := h\<rparr>) p3))))\<close>

definition contacts_try :: "fetch_outcome \<Rightarrow> page \<Rightarrow> page run" where
  "contacts_try r p =
     (case r of
        Rejected \<Rightarrow> Raised FetchFailed p
      | Response status body \<Rightarrow>
          if ok status
          then (case body of None \<Rightarrow> Raised SyntaxError p | Some cdata \<Rightarrow> render_contacts cdata p)
          else assign (and_then (kv ''Contacts'' (JStr ''Contact lookup not available for this tail.''))
                         (set_block (domContacts p)))
                 (\<lambda>h p. p\<lparr>domContacts := h\<rparr>) p)"

definition contacts_catch :: "js_error \<Rightarrow> page \<Rightarrow> page run" where
  "contacts_catch err p =
     (let p1 = p\<lparr>console := console p @ [ConsoleErrorContacts err]\<rparr>
      in if domContacts p1 \<noteq> None
         then assign (kv ''Contacts'' (JStr ''Contact lookup failed.''))
                (\<lambda>h p. p\<lparr>domContacts := Some h\<rparr>) p1
         else Done p1)"

text \<open>
  After the contacts response: the inner try and catch, then the results are shown;
  anything the inner catch block itself threw would reach the outer one.
\<close>

definition on_contacts_demo :: "fetch_outcome \<Rightarrow> page \<Rightarrow> page option" where
  "on_contacts_demo r p =
     (case (case contacts_try r p of Raised e p' \<Rightarrow> contacts_catch e p' | other \<Rightarrow> other) of
        Outside \<Rightarrow> None
      | Raised e p' \<Rightarrow> Some (lookup_failed e p')
      | Done p' \<Rightarrow> Some (showSpinner False (p'\<lparr>results_hidden := False\<rparr>)))"

definition lookup_demo :: "env \<Rightarrow> string \<Rightarrow> page \<Rightarrow> page option" where
  "lookup_demo ev input_value p =
     (case on_submit_demo input_value p of
        (p1, None) \<Rightarrow> Some p1
      | (p1, Some n) \<Rightarrow>
          (case on_primary_demo (now_adsb ev) (now_activity ev) n (primary ev) p1 of
             None \<Rightarrow> None
           | Some (p2, False) \<Rightarrow> Some p2
           | Some (p2, True) \<Rightarrow> on_contacts_demo (contacts ev) p2))"

section \<open>Notions used to state the properties\<close>

text \<open>
  The elapsed whole seconds that \<open>formatAgo\<close> computes from the clock reading and the
  epoch, the phrase it prints for a count and a unit, and, for an elapsed time, the
  count, the unit and the length of the unit in seconds that the phrase reports.
\<close>

definition elapsed_seconds :: "int \<Rightarrow> int \<Rightarrow> int" where
  "elapsed_seconds now e = max 0 ((now - e * 1000) div 1000)"

definition ago_phrase :: "int \<Rightarrow> string \<Rightarrow> string" where
  "ago_phrase c u = show_int c @ '' '' @ u @ (if c > 1 then ''s'' else '''') @ '' ago''"

definition ago_count :: "int \<Rightarrow> int" where
  "ago_count s = (if s div 86400 \<ge> 1 then s div 86400 else if s div 3600 \<ge> 1 then s div 3600
                  else if s div 60 \<ge> 1 then s div 60 else s)"

definition ago_unit :: "int \<Rightarrow> string" where
  "ago_unit s = (if s div 86400 \<ge> 1 then ''day'' else if s div 3600 \<ge> 1 then ''hr''
                  else if s div 60 \<ge> 1 then ''min'' else ''sec'')"

definition ago_unit_seconds :: "int \<Rightarrow> int" where
  "ago_unit_seconds s = (if s div 86400 \<ge> 1 then 86400 else if s div 3600 \<ge> 1 then 3600
                  else if s div 60 \<ge> 1 then 60 else 1)"

text \<open>
  The chain \<^verbatim>\<open>c1 || c2 || ... || DASH\<close> by which the script picks the value shown under
  a label (the last link is the one inside \<^verbatim>\<open>kv\<close>), and the reducer as the
  specification words it: the first candidate that is not null, not undefined and not
  the empty string.
\<close>

fun or_chain :: "jsval list \<Rightarrow> jsval" where
  "or_chain [] = JStr emdash"
| "or_chain (c # cs) = js_or c (or_chain cs)"

definition present :: "jsval \<Rightarrow> bool" where
  "present v = (v \<noteq> JNull \<and> v \<noteq> JUndefined \<and> v \<noteq> JStr [])"

fun reduce_spec :: "jsval list \<Rightarrow> jsval" where
  "reduce_spec [] = JStr emdash"
| "reduce_spec (c # cs) = (if present c then c else reduce_spec cs)"

text \<open>The HTML of a label and value cell as \<^verbatim>\<open>kv\<close> builds it.\<close>

definition value_cell :: "string \<Rightarrow> string \<Rightarrow> string" where
  \<open>value_cell label text =
     ''<div class="mb-2"><div class="label">'' @ label @ ''</div><div class="value">'' @ text
     @ ''</div></div>''\<close>

text \<open>A page with its four contact blocks, before any query, used in examples.\<close>

definition blank_page :: page where
  "blank_page = \<lparr>err_hidden = True, err_text = [], results_hidden = True, spinner_display = ''none'',
     cards = empty_cards, contactsAirline = Some [], domContacts = Some [], occContacts = Some [],
     otherContacts = Some [], requests = [], console = []\<rparr>"

text \<open>An environment for examples; the examples override the responses they need.\<close>

definition sample_env :: env where
  "sample_env = \<lparr>primary = Rejected, contacts = Rejected, now_adsb = 0, now_activity = 0\<rparr>"

text \<open>The error that the outer catch block receives from a failed aircraft request.\<close>

definition primary_cause :: "fetch_outcome \<Rightarrow> js_error" where
  "primary_cause r =
     (case r of
        Rejected \<Rightarrow> FetchFailed
      | Response st body \<Rightarrow> if ok st then SyntaxError else Error (''HTTP '' @ show_nat st))"

text \<open>
  A property of wherever a run stops (normally or at a throw), for runs that stay inside the
  modelled fragment; and what the contacts part of the handler leaves alone: everything
  but the content of the contact blocks that exist, and the console.
\<close>

fun run_all :: "('s \<Rightarrow> bool) \<Rightarrow> 's run \<Rightarrow> bool" where
  "run_all P (Done s) = P s"
| "run_all P (Raised e s) = P s"
| "run_all P Outside = False"

definition contacts_frame :: "page \<Rightarrow> page \<Rightarrow> bool" where
  "contacts_frame p q =
     (cards q = cards p \<and> err_hidden q = err_hidden p \<and> err_text q = err_text p
      \<and> results_hidden q = results_hidden p \<and> spinner_display q = spinner_display p
      \<and> requests q = requests p
      \<and> clear_block (contactsAirline q) = clear_block (contactsAirline p)
      \<and> clear_block (domContacts q) = clear_block (domContacts p)
      \<and> clear_block (occContacts q) = clear_block (occContacts p)
      \<and> clear_block (otherContacts q) = clear_block (otherContacts p))"

text \<open>What the page shows outside the contact blocks.\<close>

definition primary_view :: "page \<Rightarrow> cards \<times> string \<times> bool \<times> bool \<times> string" where
  "primary_view q = (cards q, err_text q, err_hidden q, results_hidden q, spinner_display q)"

text \<open>The page on which the handler with the contacts directory awaits the contacts response.\<close>

definition awaiting_contacts :: "string \<Rightarrow> jsval \<Rightarrow> cards \<Rightarrow> page \<Rightarrow> page" where
  "awaiting_contacts v data c p =
     (reset_demo p)\<lparr>console := console p @ [ConsoleLog (field data ''links'')],
        cards := c,
        requests := requests p @ [API_BASE @ aircraft_path (trim v), contacts_url (trim v)]\<rparr>"

text \<open>A minimal aircraft payload for examples.\<close>

definition sample_payload :: jsval where
  "sample_payload = JObj [(''tail_number'', JStr ''N123AB'')]"

text \<open>
  The page as it is rendered, the request and console logs left out; two pages are alike
  when they are rendered the same. \<open>run_rel\<close> relates two runs that stop the same
  way on related states.
\<close>

definition rendered :: "page \<Rightarrow> page" where
  "rendered p = p\<lparr>requests := [], console := []\<rparr>"

fun run_rel :: "('s \<Rightarrow> 's \<Rightarrow> bool) \<Rightarrow> 's run \<Rightarrow> 's run \<Rightarrow> bool" where
  "run_rel R (Done a) (Done b) = R a b"
| "run_rel R (Raised e a) (Raised e' b) = (e = e' \<and> R a b)"
| "run_rel R Outside Outside = True"
| "run_rel R r r' = False"

definition alike :: "page \<Rightarrow> page \<Rightarrow> bool" where
  "alike a b = (rendered a = rendered b)"

text \<open>A payload with a telemetry epoch, for examples that depend on the clock.\<close>

definition seen_payload :: jsval where
  "seen_payload = JObj [(''adsb'', JObj [(''pos_epoch'', JNum 1000)])]"

text \<open>
  The payloads on which the model decides the rendering: the two epochs that the handler
  passes to \<open>formatAgo\<close> are numbers or falsy.
\<close>

definition epoch_modelled :: "jsval \<Rightarrow> bool" where
  "epoch_modelled v = (case v of JNum e \<Rightarrow> True | _ \<Rightarrow> \<not> truthy v)"

definition epochs_modelled :: "jsval \<Rightarrow> bool" where
  "epochs_modelled data =
     (epoch_modelled (field (js_or (field data ''adsb'') (JObj [])) ''pos_epoch'')
      \<and> epoch_modelled (field (js_or (field data ''last_spotted'') (JObj [])) ''epoch''))"

text \<open>
  The handler after the aircraft response, in the variant with the contacts directory:
  the segment after the first \<open>await\<close> and, when the contact blocks exist, the segment after
  the contacts response. It runs on the page as it is when the response arrives.
\<close>

definition resume_demo :: "env \<Rightarrow> string \<Rightarrow> page \<Rightarrow> page option" where
  "resume_demo ev n p1 =
     (case on_primary_demo (now_adsb ev) (now_activity ev) n (primary ev) p1 of
        None \<Rightarrow> None
      | Some (p2, False) \<Rightarrow> Some p2
      | Some (p2, True) \<Rightarrow> on_contacts_demo (contacts ev) p2)"

text \<open>
  Two queries that overlap: \<open>N123AB\<close> is submitted on the blank page and, before its
  response has arrived, \<open>N999ZZ\<close> is submitted. \<open>newer_static\<close> and \<open>newer_demo\<close> are the
  pages on which the second handler waits for its response; \<open>older_env\<close> is what the first
  handler meets when its response arrives.
\<close>

definition older_env :: env where
  "older_env = \<lparr>primary = Response 200 (Some seen_payload), contacts = Rejected,
     now_adsb = 1000000, now_activity = 1000000\<rparr>"

definition newer_static :: page where
  "newer_static = fst (on_submit_static ''N999ZZ'' (fst (on_submit_static ''N123AB'' blank_page)))"

definition newer_demo :: page where
  "newer_demo = fst (on_submit_demo ''N999ZZ'' (fst (on_submit_demo ''N123AB'' blank_page)))"

section \<open>Properties\<close>

subsection \<open>The time-relative formatter\<close>

lemma nested_div: "(s::int) div 60 div 60 = s div 3600" "(s::int) div 3600 div 24 = s div 86400"
  by (simp_all add: zdiv_zmult2_eq [symmetric])

lemma formatAgo_unfold: "e \<noteq> 0 \<Longrightarrow> formatAgo now (JNum e) =
     (if elapsed_seconds now e div 86400 \<ge> 1 then Returns (ago_phrase (elapsed_seconds now e div 86400) ''day'')
      else if elapsed_seconds now e div 3600 \<ge> 1 then Returns (ago_phrase (elapsed_seconds now e div 3600) ''hr'')
      else if elapsed_seconds now e div 60 \<ge> 1 then Returns (ago_phrase (elapsed_seconds now e div 60) ''min'')
      else Returns (ago_phrase (elapsed_seconds now e) ''sec''))"
  apply (simp only: formatAgo_def truthy.simps)
  apply (simp only: jsval.case if_False not_not if_True simp_thms Let_def)
  apply (simp only: elapsed_seconds_def [symmetric] nested_div ago_phrase_def append.simps)
  done

lemma formatAgo_number:
  assumes e: "e \<noteq> 0"
  shows "formatAgo now (JNum e) =
     Returns (ago_phrase (ago_count (elapsed_seconds now e)) (ago_unit (elapsed_seconds now e)))"
proof -
  define s where "s = elapsed_seconds now e"
  consider (d) "1 \<le> s div 86400"
    | (h) "\<not> 1 \<le> s div 86400" "1 \<le> s div 3600"
    | (m) "\<not> 1 \<le> s div 86400" "\<not> 1 \<le> s div 3600" "1 \<le> s div 60"
    | (s) "\<not> 1 \<le> s div 86400" "\<not> 1 \<le> s div 3600" "\<not> 1 \<le> s div 60"
    by blast
  then have "formatAgo now (JNum e) = Returns (ago_phrase (ago_count s) (ago_unit s))"
  proof cases
    case d then show ?thesis
      by (simp only: formatAgo_unfold [OF e] ago_count_def ago_unit_def s_def [symmetric] if_True)
  next
    case h then show ?thesis
      by (simp only: formatAgo_unfold [OF e] ago_count_def ago_unit_def s_def [symmetric] if_True if_False)
  next
    case m then show ?thesis
      by (simp only: formatAgo_unfold [OF e] ago_count_def ago_unit_def s_def [symmetric] if_True if_False)
  next
    case s then show ?thesis
      by (simp only: formatAgo_unfold [OF e] ago_count_def ago_unit_def s_def [symmetric] if_True if_False)
  qed
  then show ?thesis by (simp only: s_def)
qed

lemma formatAgo_falsy: "\<not> truthy v \<Longrightarrow> formatAgo now v = Returns emdash"
  by (simp add: formatAgo_def)

lemma div_ge_1: "0 < (u::int) \<Longrightarrow> (1 \<le> s div u) = (u \<le> s)"
  using pos_imp_zdiv_pos_iff [of u s] by force

lemma floor_le: "0 < (u::int) \<Longrightarrow> (s div u) * u \<le> s"
  using div_mult_mod_eq [of s u] pos_mod_sign [of u s] by linarith

lemma floor_ge: "0 < (u::int) \<Longrightarrow> u \<le> s \<Longrightarrow> u \<le> (s div u) * u"
  using div_ge_1 [of u s] mult_right_mono [of 1 "s div u" u] by simp

lemma floor_mono: "0 < (u::int) \<Longrightarrow> s1 \<le> s2 \<Longrightarrow> (s1 div u) * u \<le> (s2 div u) * u"
  by (simp add: zdiv_mono1 mult_right_mono)

lemma bucket_cases:
  obtains (sec) "s < 60" "ago_count s = s" "ago_unit s = ''sec''" "ago_unit_seconds s = 1"
  | (min) "60 \<le> s" "s < 3600" "ago_count s = s div 60" "ago_unit s = ''min''" "ago_unit_seconds s = 60"
  | (hr) "3600 \<le> s" "s < 86400" "ago_count s = s div 3600" "ago_unit s = ''hr''" "ago_unit_seconds s = 3600"
  | (day) "86400 \<le> s" "ago_count s = s div 86400" "ago_unit s = ''day''" "ago_unit_seconds s = 86400"
proof -
  have a: "(1 \<le> s div 86400) = (86400 \<le> s)" by (rule div_ge_1) simp
  have b: "(1 \<le> s div 3600) = (3600 \<le> s)" by (rule div_ge_1) simp
  have c: "(1 \<le> s div 60) = (60 \<le> s)" by (rule div_ge_1) simp
  consider "s < 60" | "60 \<le> s" "s < 3600" | "3600 \<le> s" "s < 86400" | "86400 \<le> s" by linarith
  then show thesis
  proof cases
    case 1
    then have "ago_count s = s" "ago_unit s = ''sec''" "ago_unit_seconds s = 1"
      unfolding ago_count_def ago_unit_def ago_unit_seconds_def a b c by simp_all
    with 1 show ?thesis by (rule sec)
  next
    case 2
    then have "ago_count s = s div 60" "ago_unit s = ''min''" "ago_unit_seconds s = 60"
      unfolding ago_count_def ago_unit_def ago_unit_seconds_def a b c by simp_all
    with 2 show ?thesis by (rule min)
  next
    case 3
    then have "ago_count s = s div 3600" "ago_unit s = ''hr''" "ago_unit_seconds s = 3600"
      unfolding ago_count_def ago_unit_def ago_unit_seconds_def a b c by simp_all
    with 3 show ?thesis by (rule hr)
  next
    case 4
    then have "ago_count s = s div 86400" "ago_unit s = ''day''" "ago_unit_seconds s = 86400"
      unfolding ago_count_def ago_unit_def ago_unit_seconds_def a b c by simp_all
    with 4 show ?thesis by (rule day)
  qed
qed

lemma denoted_le: "ago_count s * ago_unit_seconds s \<le> s"
proof (cases s rule: bucket_cases)
  case sec then show ?thesis by simp
next
  case min then show ?thesis using floor_le [of 60 s] by simp
next
  case hr then show ?thesis using floor_le [of 3600 s] by simp
next
  case day then show ?thesis using floor_le [of 86400 s] by simp
qed

lemma elapsed_mono: "e2 \<le> e1 \<Longrightarrow> elapsed_seconds now e1 \<le> elapsed_seconds now e2"
proof -
  assume "e2 \<le> e1"
  then have "now - e1 * 1000 \<le> now - e2 * 1000" by simp
  then have "(now - e1 * 1000) div 1000 \<le> (now - e2 * 1000) div 1000"
    by (rule zdiv_mono1) simp
  then show ?thesis unfolding elapsed_seconds_def by linarith
qed

lemma denoted_mono:
  assumes "s1 \<le> s2"
  shows "ago_count s1 * ago_unit_seconds s1 \<le> ago_count s2 * ago_unit_seconds s2
         \<and> ((ago_count s1, ago_unit s1) \<noteq> (ago_count s2, ago_unit s2)
              \<longrightarrow> ago_count s1 * ago_unit_seconds s1 < ago_count s2 * ago_unit_seconds s2)"
proof -
  have same: "(s1 div u) * u \<le> (s2 div u) * u
      \<and> (s1 div u \<noteq> s2 div u \<longrightarrow> (s1 div u) * u < (s2 div u) * u)" if "0 < u" for u :: int
  proof -
    have "s1 div u \<le> s2 div u" using assms that by (simp add: zdiv_mono1)
    then show ?thesis using that by (auto simp: mult_right_mono mult_strict_right_mono)
  qed
  have across: "ago_count s1 * ago_unit_seconds s1 < ago_count s2 * ago_unit_seconds s2"
    if "s1 < t" "t \<le> ago_count s2 * ago_unit_seconds s2" for t
    using denoted_le [of s1] that by linarith
  show ?thesis
  proof (cases s1 rule: bucket_cases)
    case sec
    note b1 = sec
    show ?thesis
    proof (cases s2 rule: bucket_cases)
      case sec then show ?thesis using b1 assms by auto
    next
      case min then show ?thesis using b1 across [of 60] floor_ge [of 60 s2] by auto
    next
      case hr then show ?thesis using b1 across [of 3600] floor_ge [of 3600 s2] by auto
    next
      case day then show ?thesis using b1 across [of 86400] floor_ge [of 86400 s2] by auto
    qed
  next
    case min
    note b1 = min
    show ?thesis
    proof (cases s2 rule: bucket_cases)
      case sec then show ?thesis using b1 assms by auto
    next
      case min then show ?thesis using b1 same [of 60] by auto
    next
      case hr then show ?thesis using b1 across [of 3600] floor_ge [of 3600 s2] by auto
    next
      case day then show ?thesis using b1 across [of 86400] floor_ge [of 86400 s2] by auto
    qed
  next
    case hr
    note b1 = hr
    show ?thesis
    proof (cases s2 rule: bucket_cases)
      case sec then show ?thesis using b1 assms by auto
    next
      case min then show ?thesis using b1 assms by auto
    next
      case hr then show ?thesis using b1 same [of 3600] by auto
    next
      case day then show ?thesis using b1 across [of 86400] floor_ge [of 86400 s2] by auto
    qed
  next
    case day
    note b1 = day
    show ?thesis
    proof (cases s2 rule: bucket_cases)
      case sec then show ?thesis using b1 assms by auto
    next
      case min then show ?thesis using b1 assms by auto
    next
      case hr then show ?thesis using b1 assms by auto
    next
      case day then show ?thesis using b1 same [of 86400] by auto
    qed
  qed
qed

lemma ago_count_nonneg: "0 \<le> s \<Longrightarrow> 0 \<le> ago_count s"
  by (cases s rule: bucket_cases) (simp_all add: pos_imp_zdiv_nonneg_iff)

lemma elapsed_after: "elapsed_seconds ((e + k) * 1000) e = max 0 k"
  by (simp add: elapsed_seconds_def algebra_simps)

lemma ago_eval:
  "ago_phrase (ago_count (max 0 59)) (ago_unit (max 0 59)) = ''59 secs ago''"
  "ago_phrase (ago_count (max 0 60)) (ago_unit (max 0 60)) = ''1 min ago''"
  "ago_phrase (ago_count (max 0 3600)) (ago_unit (max 0 3600)) = ''1 hr ago''"
  "ago_phrase (ago_count (max 0 86400)) (ago_unit (max 0 86400)) = ''1 day ago''"
  "ago_phrase (ago_count 0) (ago_unit 0) = ''0 sec ago''"
  by (simp_all add: ago_count_def ago_unit_def ago_phrase_def
        show_int_def show_nat.simps digit_char_def)

lemma formatAgo_examples:
  assumes e: "e \<noteq> 0"
  shows "formatAgo ((e + 59) * 1000) (JNum e) = Returns ''59 secs ago''"
    and "formatAgo ((e + 60) * 1000) (JNum e) = Returns ''1 min ago''"
    and "formatAgo ((e + 3600) * 1000) (JNum e) = Returns ''1 hr ago''"
    and "formatAgo ((e + 86400) * 1000) (JNum e) = Returns ''1 day ago''"
  by (simp_all only: formatAgo_number [OF e] elapsed_after ago_eval)

lemma elapsed_future: "now \<le> e * 1000 \<Longrightarrow> elapsed_seconds now e = 0"
proof -
  assume "now \<le> e * 1000"
  then have "(now - e * 1000) div 1000 \<le> 0 div 1000" by (intro zdiv_mono1) simp_all
  then show ?thesis unfolding elapsed_seconds_def by simp
qed

lemma elapsed_nonneg: "0 \<le> elapsed_seconds now e"
  unfolding elapsed_seconds_def by simp

text \<open>
  Claim C6. \<open>formatAgo\<close> returns the "unknown" sentinel (the em dash) on every falsy
  epoch (absent, null, zero, false, empty). On a non-zero number it takes the clamped
  elapsed seconds and reports whole days if there is at least one, else whole hours if
  there is at least one, else whole minutes if there is at least one, else the seconds;
  the unit gets an "s" exactly when the count reported is greater than 1.
\<close>

theorem formatAgo_buckets:
  "(\<not> truthy v \<longrightarrow> formatAgo now v = Returns emdash)
   \<and> (e \<noteq> 0 \<longrightarrow>
        formatAgo now (JNum e) =
          (if elapsed_seconds now e div 86400 \<ge> 1
             then Returns (ago_phrase (elapsed_seconds now e div 86400) ''day'')
           else if elapsed_seconds now e div 3600 \<ge> 1
             then Returns (ago_phrase (elapsed_seconds now e div 3600) ''hr'')
           else if elapsed_seconds now e div 60 \<ge> 1
             then Returns (ago_phrase (elapsed_seconds now e div 60) ''min'')
           else Returns (ago_phrase (elapsed_seconds now e) ''sec'')))
   \<and> (1 < c \<longrightarrow> ago_phrase c u = show_int c @ '' '' @ u @ ''s ago'')
   \<and> (c \<le> 1 \<longrightarrow> ago_phrase c u = show_int c @ '' '' @ u @ '' ago'')"
proof (intro conjI impI)
  assume "\<not> truthy v" then show "formatAgo now v = Returns emdash" by (rule formatAgo_falsy)
next
  assume "e \<noteq> 0" then show "formatAgo now (JNum e) =
          (if elapsed_seconds now e div 86400 \<ge> 1
             then Returns (ago_phrase (elapsed_seconds now e div 86400) ''day'')
           else if elapsed_seconds now e div 3600 \<ge> 1
             then Returns (ago_phrase (elapsed_seconds now e div 3600) ''hr'')
           else if elapsed_seconds now e div 60 \<ge> 1
             then Returns (ago_phrase (elapsed_seconds now e div 60) ''min'')
           else Returns (ago_phrase (elapsed_seconds now e) ''sec''))" by (rule formatAgo_unfold)
next
  assume "1 < c" then show "ago_phrase c u = show_int c @ '' '' @ u @ ''s ago''"
    by (simp add: ago_phrase_def)
next
  assume "c \<le> 1" then show "ago_phrase c u = show_int c @ '' '' @ u @ '' ago''"
    by (simp add: ago_phrase_def)
qed

theorem formatAgo_buckets_witness:
  "(41::int) \<noteq> 0 \<and> \<not> truthy (JNum 0) \<and> (1::int) < 2 \<and> (1::int) \<le> 1
   \<and> formatAgo 100000 (JNum 0) = Returns emdash
   \<and> formatAgo 100000 (JNum 41) = Returns ''59 secs ago''
   \<and> ago_phrase 2 ''hr'' = ''2 hrs ago'' \<and> ago_phrase 1 ''hr'' = ''1 hr ago''"
  using formatAgo_buckets [of "JNum 0" 100000 41 2 "''hr''"] formatAgo_buckets [of "JNum 0" 100000 41 1 "''hr''"]
  by (simp add: elapsed_seconds_def ago_phrase_def show_int_def show_nat.simps digit_char_def)

text \<open>
  Claim C7. The elapsed time is never negative, and it is 0 for an epoch that is not in
  the past; the count that \<open>formatAgo\<close> prints is never negative. The duration that
  the printed phrase stands for (count times unit) grows with the elapsed time, and
  strictly so whenever the phrase changes, in particular across each bucket boundary:
  59 s, 60 s, 3600 s and 86400 s print as "59 secs ago", "1 min ago", "1 hr ago" and
  "1 day ago".
\<close>

theorem formatAgo_clamped_monotone:
  "0 \<le> elapsed_seconds now e
   \<and> (now \<le> e * 1000 \<longrightarrow> elapsed_seconds now e = 0)
   \<and> (e \<noteq> 0 \<longrightarrow>
        formatAgo now (JNum e) =
          Returns (ago_phrase (ago_count (elapsed_seconds now e)) (ago_unit (elapsed_seconds now e)))
        \<and> 0 \<le> ago_count (elapsed_seconds now e))
   \<and> (e2 \<le> e1 \<longrightarrow>
        ago_count (elapsed_seconds now e1) * ago_unit_seconds (elapsed_seconds now e1)
          \<le> ago_count (elapsed_seconds now e2) * ago_unit_seconds (elapsed_seconds now e2)
        \<and> ((ago_count (elapsed_seconds now e1), ago_unit (elapsed_seconds now e1))
               \<noteq> (ago_count (elapsed_seconds now e2), ago_unit (elapsed_seconds now e2))
             \<longrightarrow> ago_count (elapsed_seconds now e1) * ago_unit_seconds (elapsed_seconds now e1)
                   < ago_count (elapsed_seconds now e2) * ago_unit_seconds (elapsed_seconds now e2)))
   \<and> (e \<noteq> 0 \<longrightarrow>
        formatAgo ((e + 59) * 1000) (JNum e) = Returns ''59 secs ago''
        \<and> formatAgo ((e + 60) * 1000) (JNum e) = Returns ''1 min ago''
        \<and> formatAgo ((e + 3600) * 1000) (JNum e) = Returns ''1 hr ago''
        \<and> formatAgo ((e + 86400) * 1000) (JNum e) = Returns ''1 day ago'')"
proof (intro conjI impI)
  show "0 \<le> elapsed_seconds now e" by (rule elapsed_nonneg)
next
  assume "now \<le> e * 1000" then show "elapsed_seconds now e = 0" by (rule elapsed_future)
next
  assume "e \<noteq> 0"
  then show "formatAgo now (JNum e) =
      Returns (ago_phrase (ago_count (elapsed_seconds now e)) (ago_unit (elapsed_seconds now e)))"
    by (rule formatAgo_number)
next
  show "0 \<le> ago_count (elapsed_seconds now e)"
    by (rule ago_count_nonneg) (rule elapsed_nonneg)
next
  assume "e2 \<le> e1"
  then show "ago_count (elapsed_seconds now e1) * ago_unit_seconds (elapsed_seconds now e1)
          \<le> ago_count (elapsed_seconds now e2) * ago_unit_seconds (elapsed_seconds now e2)"
    using denoted_mono [OF elapsed_mono] by blast
next
  assume "e2 \<le> e1"
    and "(ago_count (elapsed_seconds now e1), ago_unit (elapsed_seconds now e1))
               \<noteq> (ago_count (elapsed_seconds now e2), ago_unit (elapsed_seconds now e2))"
  then show "ago_count (elapsed_seconds now e1) * ago_unit_seconds (elapsed_seconds now e1)
                   < ago_count (elapsed_seconds now e2) * ago_unit_seconds (elapsed_seconds now e2)"
    using denoted_mono [OF elapsed_mono] by blast
next
  assume e: "e \<noteq> 0"
  show "formatAgo ((e + 59) * 1000) (JNum e) = Returns ''59 secs ago''"
    by (rule formatAgo_examples [OF e])
  show "formatAgo ((e + 60) * 1000) (JNum e) = Returns ''1 min ago''"
    by (rule formatAgo_examples [OF e])
  show "formatAgo ((e + 3600) * 1000) (JNum e) = Returns ''1 hr ago''"
    by (rule formatAgo_examples [OF e])
  show "formatAgo ((e + 86400) * 1000) (JNum e) = Returns ''1 day ago''"
    by (rule formatAgo_examples [OF e])
qed

theorem formatAgo_clamped_monotone_witness:
  "(100000::int) \<le> 500 * 1000 \<and> (500::int) \<noteq> 0 \<and> (40::int) \<le> 41
   \<and> elapsed_seconds 100000 500 = 0
   \<and> formatAgo 100000 (JNum 500) = Returns ''0 sec ago''
   \<and> ago_count (elapsed_seconds 100000 41) * ago_unit_seconds (elapsed_seconds 100000 41) = 59
   \<and> ago_count (elapsed_seconds 100000 40) * ago_unit_seconds (elapsed_seconds 100000 40) = 60
   \<and> formatAgo ((500 + 86400) * 1000) (JNum 500) = Returns ''1 day ago''"
  using formatAgo_clamped_monotone [of 100000 500 40 41]
  by (simp add: elapsed_seconds_def ago_count_def ago_unit_def ago_unit_seconds_def ago_phrase_def
        show_int_def show_nat.simps digit_char_def)

subsection \<open>The field reduction\<close>

lemma kv_value: "kv label v = and_then (to_string (js_or v (JStr emdash))) (\<lambda>t. Returns (value_cell label t))"
  by (simp add: kv_def value_cell_def)

lemma emdash_nonempty: "emdash \<noteq> []"
  by (simp add: emdash_def)

lemma kv_text: "t \<noteq> [] \<Longrightarrow> kv label (JStr t) = Returns (value_cell label t)"
  by (simp add: kv_value js_or_def and_then_def)

lemma or_chain_filter: "or_chain cs = (case filter truthy cs of [] \<Rightarrow> JStr emdash | c # rest \<Rightarrow> c)"
  by (induction cs) (simp_all add: js_or_def)

lemma truthy_present: "truthy c \<Longrightarrow> present c"
  by (cases c) (auto simp: present_def)

lemma falsy_cases: "\<not> truthy c \<Longrightarrow> c = JUndefined \<or> c = JNull \<or> c = JBool False \<or> c = JNum 0 \<or> c = JStr []"
  by (cases c) auto

lemma or_chain_spec:
  "\<forall>c \<in> set cs. c \<noteq> JNum 0 \<and> c \<noteq> JBool False \<Longrightarrow> or_chain cs = reduce_spec cs"
proof (induction cs)
  case Nil
  then show ?case by simp
next
  case (Cons c cs)
  show ?case
  proof (cases "truthy c")
    case True
    then show ?thesis by (simp add: js_or_def truthy_present)
  next
    case False
    then have "\<not> present c" using falsy_cases [OF False] Cons.prems by (auto simp: present_def)
    with False Cons show ?thesis by (simp add: js_or_def)
  qed
qed

text \<open>
  Claim C1, as amended. Every label shows the first truthy candidate of its chain, or the
  sentinel when there is none: a candidate is passed over when it is null, undefined,
  the empty string, the number 0 or false. On candidate lists without 0 and false this
  is the first candidate that is not null, not undefined and not the empty string.
\<close>

theorem field_reduction_first_truthy:
  "kv label v = kv label (or_chain [v])
   \<and> or_chain cs = (case filter truthy cs of [] \<Rightarrow> JStr emdash | c # rest \<Rightarrow> c)
   \<and> ((\<forall>c \<in> set cs. c \<noteq> JNum 0 \<and> c \<noteq> JBool False) \<longrightarrow> or_chain cs = reduce_spec cs)"
proof (intro conjI impI)
  show "kv label v = kv label (or_chain [v])"
    by (simp add: kv_def js_or_def)
  show "or_chain cs = (case filter truthy cs of [] \<Rightarrow> JStr emdash | c # rest \<Rightarrow> c)"
    by (rule or_chain_filter)
next
  assume "\<forall>c \<in> set cs. c \<noteq> JNum 0 \<and> c \<noteq> JBool False"
  then show "or_chain cs = reduce_spec cs" by (rule or_chain_spec)
qed

theorem field_reduction_first_truthy_witness:
  "or_chain [JNull, JStr [], JStr ''N123AB''] = reduce_spec [JNull, JStr [], JStr ''N123AB'']
   \<and> or_chain [JNull, JStr [], JStr ''N123AB''] = JStr ''N123AB''"
proof -
  have "\<forall>c \<in> set [JNull, JStr [], JStr ''N123AB'']. c \<noteq> JNum 0 \<and> c \<noteq> JBool False"
    by simp
  with field_reduction_first_truthy [of "''Registration''" JNull "[JNull, JStr [], JStr ''N123AB'']"]
  have "or_chain [JNull, JStr [], JStr ''N123AB''] = reduce_spec [JNull, JStr [], JStr ''N123AB'']"
    by blast
  then show ?thesis by (simp add: present_def)
qed

text \<open>
  Claim C1 as stated fails: a seat count of 0 is shown as the sentinel, false and 0 are both
  passed over where the specified reducer keeps them, and a ground speed of 0 is dropped
  from the joined speed and track.
\<close>

theorem field_reduction_zero_false_counterexample:
  "kv ''Seats'' (JNum 0) = Returns (value_cell ''Seats'' emdash)
   \<and> reduce_spec [JNum 0] = JNum 0
   \<and> or_chain [JBool False, JNum 0] = JStr emdash
   \<and> reduce_spec [JBool False, JNum 0] = JBool False
   \<and> filter_join [JNum 0, JNum 270] '' / '' = Returns (JStr ''270'')"
  by (simp add: kv_value js_or_def and_then_def present_def filter_join_def emdash_def
        show_int_def show_nat.simps digit_char_def)

subsection \<open>The registry card\<close>

lemma all_of_snoc:
  "all_of (xs @ [x]) = Returns vs \<Longrightarrow> \<exists>pre v. x = Returns v \<and> vs = pre @ [v]"
proof (induction xs arbitrary: vs)
  case Nil
  then show ?case by (cases x) (auto simp: and_then_def)
next
  case (Cons a xs)
  from Cons.prems obtain w ws where a: "a = Returns w" and ws: "all_of (xs @ [x]) = Returns ws"
    and vs: "vs = w # ws"
    by (cases a; cases "all_of (xs @ [x])") (auto simp: and_then_def)
  from Cons.IH [OF ws] obtain pre v where "x = Returns v" "ws = pre @ [v]" by blast
  with vs have "x = Returns v \<and> vs = (w # pre) @ [v]" by simp
  then show ?case by blast
qed

lemma joined_snoc:
  "joined (xs @ [Returns t]) = Returns h \<Longrightarrow> suffix t h"
proof -
  assume "joined (xs @ [Returns t]) = Returns h"
  then obtain vs where vs: "all_of (xs @ [Returns t]) = Returns vs" and h: "h = concat vs"
    by (cases "all_of (xs @ [Returns t])") (auto simp: joined_def and_then_def)
  from all_of_snoc [OF vs] obtain pre where "vs = pre @ [t]" by auto
  with h show ?thesis by (simp add: suffix_def)
qed

lemma fractional_owner_text_nonempty: "fractional_owner_text v \<noteq> []"
  by (simp add: fractional_owner_text_def emdash_def)

lemma regCard_suffix:
  assumes "regCard_html data = Returns h"
  shows "suffix (value_cell ''Fractional Owner''
           (fractional_owner_text (field (js_or (field data ''registry'') (JObj [])) ''fractional_owner''))) h"
proof -
  from assms obtain v where v: "get data ''registry'' = Returns v"
    by (cases "get data ''registry''") (auto simp: regCard_html_def and_then_def)
  then have f: "field data ''registry'' = v" by (simp add: field_def)
  define rg where "rg = js_or v (JObj [])"
  define cells where "cells = [
         kv ''Owner'' (field rg ''owner''),
         kv ''Status'' (field rg ''status''),
         kv ''Airworthiness Class'' (field rg ''airworthiness_class''),
         kv ''Certificate Issue Date'' (field rg ''certificate_issue_date''),
         kv ''Airworthiness Date'' (field rg ''airworthiness_date''),
         kv ''Expiration'' (field rg ''expiration''),
         kv ''Engine'' (field rg ''engine''),
         kv ''Serial Number'' (field rg ''serial_number''),
         kv ''Model Year'' (field rg ''model_year''),
         kv ''Seats'' (field rg ''seats''),
         kv ''Engines'' (field rg ''engines_count'')]"
  have "regCard_html data =
      joined (cells @ [Returns (value_cell ''Fractional Owner''
                         (fractional_owner_text (field rg ''fractional_owner'')))])"
    unfolding regCard_html_def cells_def
    by (simp add: v and_then_def rg_def Let_def kv_text fractional_owner_text_nonempty)
  with assms show ?thesis using joined_snoc unfolding f rg_def by metis
qed

text \<open>
  Claim C8. Whenever the registry card is rendered, its last cell, labelled
  "Fractional Owner", reads YES when the field is the boolean true, NO when it is the
  boolean false, and the sentinel otherwise, in particular when the field is absent; the
  three texts are different, so false is not shown like an absent value.
\<close>

theorem fractional_owner_three_way:
  "(regCard_html data = Returns h \<longrightarrow>
      (field (js_or (field data ''registry'') (JObj [])) ''fractional_owner'' = JBool True
         \<longrightarrow> suffix (value_cell ''Fractional Owner'' ''YES'') h)
    \<and> (field (js_or (field data ''registry'') (JObj [])) ''fractional_owner'' = JBool False
         \<longrightarrow> suffix (value_cell ''Fractional Owner'' ''NO'') h)
    \<and> (field (js_or (field data ''registry'') (JObj [])) ''fractional_owner'' \<noteq> JBool True
        \<and> field (js_or (field data ''registry'') (JObj [])) ''fractional_owner'' \<noteq> JBool False
         \<longrightarrow> suffix (value_cell ''Fractional Owner'' emdash) h))
   \<and> fractional_owner_text (JBool True) = ''YES''
   \<and> fractional_owner_text (JBool False) = ''NO''
   \<and> fractional_owner_text JUndefined = emdash
   \<and> ''NO'' \<noteq> emdash \<and> ''YES'' \<noteq> emdash"
proof (intro conjI impI)
  assume h: "regCard_html data = Returns h"
  {
    assume "field (js_or (field data ''registry'') (JObj [])) ''fractional_owner'' = JBool True"
    then show "suffix (value_cell ''Fractional Owner'' ''YES'') h"
      using regCard_suffix [OF h] by (simp add: fractional_owner_text_def)
  next
    assume "field (js_or (field data ''registry'') (JObj [])) ''fractional_owner'' = JBool False"
    then show "suffix (value_cell ''Fractional Owner'' ''NO'') h"
      using regCard_suffix [OF h] by (simp add: fractional_owner_text_def)
  next
    assume "field (js_or (field data ''registry'') (JObj [])) ''fractional_owner'' \<noteq> JBool True
        \<and> field (js_or (field data ''registry'') (JObj [])) ''fractional_owner'' \<noteq> JBool False"
    then show "suffix (value_cell ''Fractional Owner'' emdash) h"
      using regCard_suffix [OF h] by (simp add: fractional_owner_text_def)
  }
qed (simp_all add: fractional_owner_text_def emdash_def)

theorem fractional_owner_three_way_witness:
  "regCard_html (JObj [(''registry'', JObj [(''owner'', JStr ''ACME''), (''fractional_owner'', JBool False)])])
     = Returns (value_cell ''Owner'' ''ACME'' @ value_cell ''Status'' emdash
         @ value_cell ''Airworthiness Class'' emdash @ value_cell ''Certificate Issue Date'' emdash
         @ value_cell ''Airworthiness Date'' emdash @ value_cell ''Expiration'' emdash
         @ value_cell ''Engine'' emdash @ value_cell ''Serial Number'' emdash
         @ value_cell ''Model Year'' emdash @ value_cell ''Seats'' emdash
         @ value_cell ''Engines'' emdash @ value_cell ''Fractional Owner'' ''NO'')
   \<and> field (js_or (field (JObj [(''registry'', JObj [(''owner'', JStr ''ACME''), (''fractional_owner'', JBool False)])])
               ''registry'') (JObj [])) ''fractional_owner'' = JBool False
   \<and> suffix (value_cell ''Fractional Owner'' ''NO'')
        (value_cell ''Owner'' ''ACME'' @ value_cell ''Status'' emdash
         @ value_cell ''Airworthiness Class'' emdash @ value_cell ''Certificate Issue Date'' emdash
         @ value_cell ''Airworthiness Date'' emdash @ value_cell ''Expiration'' emdash
         @ value_cell ''Engine'' emdash @ value_cell ''Serial Number'' emdash
         @ value_cell ''Model Year'' emdash @ value_cell ''Seats'' emdash
         @ value_cell ''Engines'' emdash @ value_cell ''Fractional Owner'' ''NO'')"
proof -
  have r: "regCard_html (JObj [(''registry'', JObj [(''owner'', JStr ''ACME''), (''fractional_owner'', JBool False)])])
     = Returns (value_cell ''Owner'' ''ACME'' @ value_cell ''Status'' emdash
         @ value_cell ''Airworthiness Class'' emdash @ value_cell ''Certificate Issue Date'' emdash
         @ value_cell ''Airworthiness Date'' emdash @ value_cell ''Expiration'' emdash
         @ value_cell ''Engine'' emdash @ value_cell ''Serial Number'' emdash
         @ value_cell ''Model Year'' emdash @ value_cell ''Seats'' emdash
         @ value_cell ''Engines'' emdash @ value_cell ''Fractional Owner'' ''NO'')"
    by (simp add: regCard_html_def and_then_def joined_def js_or_def field_def Let_def kv_value
          fractional_owner_text_def emdash_nonempty)
  have f: "field (js_or (field (JObj [(''registry'', JObj [(''owner'', JStr ''ACME''), (''fractional_owner'', JBool False)])])
               ''registry'') (JObj [])) ''fractional_owner'' = JBool False"
    by (simp add: field_def js_or_def)
  from fractional_owner_three_way [of "JObj [(''registry'', JObj [(''owner'', JStr ''ACME''), (''fractional_owner'', JBool False)])]"
      "value_cell ''Owner'' ''ACME'' @ value_cell ''Status'' emdash
         @ value_cell ''Airworthiness Class'' emdash @ value_cell ''Certificate Issue Date'' emdash
         @ value_cell ''Airworthiness Date'' emdash @ value_cell ''Expiration'' emdash
         @ value_cell ''Engine'' emdash @ value_cell ''Serial Number'' emdash
         @ value_cell ''Model Year'' emdash @ value_cell ''Seats'' emdash
         @ value_cell ''Engines'' emdash @ value_cell ''Fractional Owner'' ''NO''"] r f
  show ?thesis by blast
qed

subsection \<open>Validation, reset and failure of the aircraft request\<close>

lemma trim_blank: "trim [CHR 0x20, CHR 0x09, CHR 0xC2, CHR 0xA0] = []"
  by (simp add: trim_def strip.simps prefix_len_def white_space_def)

lemma trim_tail: "trim '' N123AB '' = ''N123AB''"
  by (simp add: trim_def strip.simps prefix_len_def white_space_def)

lemma reset_demo_simps:
  "cards (reset_demo p) = empty_cards"
  "err_text (reset_demo p) = []"
  "err_hidden (reset_demo p)"
  "results_hidden (reset_demo p)"
  "spinner_display (reset_demo p) = ''inline-block''"
  "contactsAirline (reset_demo p) = clear_block (contactsAirline p)"
  "domContacts (reset_demo p) = clear_block (domContacts p)"
  "occContacts (reset_demo p) = clear_block (occContacts p)"
  "otherContacts (reset_demo p) = clear_block (otherContacts p)"
  "requests (reset_demo p) = requests p"
  "console (reset_demo p) = console p"
  by (simp_all add: reset_demo_def showSpinner_def setError_def)

lemma reset_static_simps:
  "cards (reset_static p) = empty_cards"
  "err_text (reset_static p) = []"
  "err_hidden (reset_static p)"
  "results_hidden (reset_static p)"
  "spinner_display (reset_static p) = ''inline-block''"
  "contactsAirline (reset_static p) = contactsAirline p"
  "domContacts (reset_static p) = domContacts p"
  "occContacts (reset_static p) = occContacts p"
  "otherContacts (reset_static p) = otherContacts p"
  "requests (reset_static p) = requests p"
  "console (reset_static p) = console p"
  by (simp_all add: reset_static_def showSpinner_def setError_def)

lemma clear_block_cases: "clear_block el = None \<or> clear_block el = Some []"
  by (cases el) (simp_all add: clear_block_def)

text \<open>
  Claim C4. When the query is empty after trimming, both variants of the handler stop
  before any request: the request log is unchanged, and the error region shows
  "Please enter an N-number.".
\<close>

theorem empty_query_rejected:
  assumes "trim v = []"
  shows "on_submit_demo v p = (showSpinner False (setError ''Please enter an N-number.'' (reset_demo p)), None)
    \<and> lookup_demo ev v p = Some (showSpinner False (setError ''Please enter an N-number.'' (reset_demo p)))
    \<and> requests (showSpinner False (setError ''Please enter an N-number.'' (reset_demo p))) = requests p
    \<and> err_text (showSpinner False (setError ''Please enter an N-number.'' (reset_demo p))) = ''Please enter an N-number.''
    \<and> \<not> err_hidden (showSpinner False (setError ''Please enter an N-number.'' (reset_demo p)))
    \<and> on_submit_static v p = (showSpinner False (setError ''Please enter an N-number.'' (reset_static p)), None)
    \<and> lookup_static ev v p = Some (showSpinner False (setError ''Please enter an N-number.'' (reset_static p)))
    \<and> requests (showSpinner False (setError ''Please enter an N-number.'' (reset_static p))) = requests p
    \<and> err_text (showSpinner False (setError ''Please enter an N-number.'' (reset_static p))) = ''Please enter an N-number.''
    \<and> \<not> err_hidden (showSpinner False (setError ''Please enter an N-number.'' (reset_static p)))"
  using assms
  by (simp add: on_submit_demo_def validate_demo_def lookup_demo_def on_submit_static_def
        validate_static_def lookup_static_def showSpinner_def setError_def reset_demo_simps
        reset_static_simps)

theorem empty_query_rejected_witness:
  "trim [CHR 0x20, CHR 0x09, CHR 0xC2, CHR 0xA0] = []
   \<and> lookup_demo sample_env [CHR 0x20, CHR 0x09, CHR 0xC2, CHR 0xA0] blank_page
       = Some (showSpinner False (setError ''Please enter an N-number.'' (reset_demo blank_page)))
   \<and> requests (showSpinner False (setError ''Please enter an N-number.'' (reset_demo blank_page))) = []"
  using empty_query_rejected [OF trim_blank, of blank_page sample_env] trim_blank
  by (simp add: blank_page_def)

lemma primary_data_failure:
  "primary_data Rejected = Throws FetchFailed"
  "\<not> ok st \<Longrightarrow> primary_data (Response st body) = Throws (Error (''HTTP '' @ show_nat st))"
  "ok st \<Longrightarrow> primary_data (Response st None) = Throws SyntaxError"
  by (simp_all add: primary_data_def)

lemma lookup_failed_simps:
  "cards (lookup_failed e p) = cards p"
  "results_hidden (lookup_failed e p) = results_hidden p"
  "err_text (lookup_failed e p) = ''Lookup failed. Try again in a moment or verify the N-number.''"
  "\<not> err_hidden (lookup_failed e p)"
  "console (lookup_failed e p) = console p @ [ConsoleError e]"
  "spinner_display (lookup_failed e p) = ''none''"
  "requests (lookup_failed e p) = requests p"
  "contactsAirline (lookup_failed e p) = contactsAirline p"
  "domContacts (lookup_failed e p) = domContacts p"
  "occContacts (lookup_failed e p) = occContacts p"
  "otherContacts (lookup_failed e p) = otherContacts p"
  by (simp_all add: lookup_failed_def showSpinner_def setError_def)

lemma primary_fails:
  assumes "r = Rejected \<or> (\<exists>st body. r = Response st body \<and> \<not> ok st) \<or> (\<exists>st. r = Response st None)"
  shows "primary_data r = Throws (primary_cause r)"
  using assms by (auto simp: primary_data_def primary_cause_def)

text \<open>
  Claim C3. When the aircraft request is rejected, answered with a status outside 200 to
  299, or answered with a body that does not parse, both variants end with every card
  empty and the results region hidden, the error region showing the fixed text
  "Lookup failed. Try again in a moment or verify the N-number." (which does not depend
  on the status), and the cause appended to the console: the rejection, the error
  \<^verbatim>\<open>HTTP\<close> followed by the status, or the parse error.
\<close>

theorem primary_failure_is_fatal:
  assumes "trim v \<noteq> []"
    and "primary ev = Rejected \<or> (\<exists>st body. primary ev = Response st body \<and> \<not> ok st)
         \<or> (\<exists>st. primary ev = Response st None)"
  shows "(\<exists>q. lookup_demo ev v p = Some q
           \<and> results_hidden q \<and> cards q = empty_cards
           \<and> err_text q = ''Lookup failed. Try again in a moment or verify the N-number.''
           \<and> \<not> err_hidden q
           \<and> console q = console p @ [ConsoleError (primary_cause (primary ev))]
           \<and> requests q = requests p @ [API_BASE @ aircraft_path (trim v)]
           \<and> spinner_display q = ''none'')
       \<and> (\<exists>q. lookup_static ev v p = Some q
           \<and> results_hidden q \<and> cards q = empty_cards
           \<and> err_text q = ''Lookup failed. Try again in a moment or verify the N-number.''
           \<and> \<not> err_hidden q
           \<and> console q = console p @ [ConsoleError (primary_cause (primary ev))]
           \<and> requests q = requests p @ [aircraft_path (trim v)]
           \<and> spinner_display q = ''none'')
       \<and> primary_cause Rejected = FetchFailed
       \<and> (\<forall>st body. \<not> ok st \<longrightarrow> primary_cause (Response st body) = Error (''HTTP '' @ show_nat st))
       \<and> (\<forall>st body. ok st \<longrightarrow> primary_cause (Response st body) = SyntaxError)"
proof -
  note pf = primary_fails [OF assms(2)]
  have d: "lookup_demo ev v p = Some (lookup_failed (primary_cause (primary ev))
             ((reset_demo p)\<lparr>requests := requests p @ [API_BASE @ aircraft_path (trim v)]\<rparr>))"
    using assms(1) pf
    by (simp add: lookup_demo_def on_submit_demo_def validate_demo_def Let_def on_primary_demo_def
          reset_demo_simps)
  have s: "lookup_static ev v p = Some (lookup_failed (primary_cause (primary ev))
             ((reset_static p)\<lparr>requests := requests p @ [aircraft_path (trim v)]\<rparr>))"
    using assms(1) pf
    by (simp add: lookup_static_def on_submit_static_def validate_static_def Let_def
          on_primary_static_def reset_static_simps)
  show ?thesis
    unfolding d s
    by (simp add: lookup_failed_simps reset_demo_simps reset_static_simps primary_cause_def)
qed

theorem primary_failure_is_fatal_witness:
  "trim '' N123AB '' \<noteq> []
   \<and> (\<exists>st body. primary (sample_env\<lparr>primary := Response 500 None\<rparr>) = Response st body \<and> \<not> ok st)
   \<and> (\<exists>q. lookup_demo (sample_env\<lparr>primary := Response 500 None\<rparr>) '' N123AB '' blank_page = Some q
           \<and> results_hidden q \<and> cards q = empty_cards
           \<and> err_text q = ''Lookup failed. Try again in a moment or verify the N-number.''
           \<and> console q = [ConsoleError (Error ''HTTP 500'')])"
proof -
  have t: "trim '' N123AB '' \<noteq> []" by (simp add: trim_tail)
  have r: "\<exists>st body. primary (sample_env\<lparr>primary := Response 500 None\<rparr>) = Response st body \<and> \<not> ok st"
    by (simp add: ok_def)
  then have r': "primary (sample_env\<lparr>primary := Response 500 None\<rparr>) = Rejected
       \<or> (\<exists>st body. primary (sample_env\<lparr>primary := Response 500 None\<rparr>) = Response st body \<and> \<not> ok st)
       \<or> (\<exists>st. primary (sample_env\<lparr>primary := Response 500 None\<rparr>) = Response st None)"
    by blast
  have c: "primary_cause (Response 500 None) = Error ''HTTP 500''"
    by (simp add: primary_cause_def ok_def show_nat.simps digit_char_def)
  from primary_failure_is_fatal [OF t r', of blank_page] t r c
  show ?thesis by (auto simp: blank_page_def)
qed

subsection \<open>The contacts lookup\<close>

lemma and_then_modelled:
  "x \<noteq> Unmodelled \<Longrightarrow> (\<And>v. f v \<noteq> Unmodelled) \<Longrightarrow> and_then x f \<noteq> Unmodelled"
  by (cases x) (simp_all add: and_then_def)

lemma if_modelled:
  "(c \<Longrightarrow> a \<noteq> Unmodelled) \<Longrightarrow> (\<not> c \<Longrightarrow> b \<noteq> Unmodelled) \<Longrightarrow> (if c then a else b) \<noteq> Unmodelled"
  by simp

lemma returns_modelled: "Returns v \<noteq> Unmodelled" "Throws e \<noteq> Unmodelled"
  by simp_all

lemma to_string_modelled: "to_string v \<noteq> Unmodelled" "elem_strings vs \<noteq> Unmodelled"
proof (induction v and vs rule: to_string_elem_strings.induct)
  case (6 xs)
  then show ?case by (simp only: to_string.simps) (intro and_then_modelled returns_modelled)
next
  case (9 x xs)
  then show ?case
    by (simp only: elem_strings.simps) (intro and_then_modelled if_modelled returns_modelled; simp)
qed simp_all

lemma all_of_modelled: "(\<And>x. x \<in> set xs \<Longrightarrow> x \<noteq> Unmodelled) \<Longrightarrow> all_of xs \<noteq> Unmodelled"
proof (induction xs)
  case Nil
  then show ?case by simp
next
  case (Cons a xs)
  show ?case
    by (simp only: all_of.simps) (intro and_then_modelled returns_modelled; simp add: Cons)
qed

lemma kv_modelled: "kv label v \<noteq> Unmodelled"
  unfolding kv_def by (intro and_then_modelled to_string_modelled returns_modelled)

lemma get_modelled: "get v k \<noteq> Unmodelled"
  by (cases v) simp_all

lemma set_block_modelled: "set_block el h \<noteq> Unmodelled"
  by (cases el) (simp_all add: set_block_def)

lemma contact_row_modelled: "contact_row c \<noteq> Unmodelled"
  unfolding contact_row_def Let_def
  by (intro and_then_modelled if_modelled to_string_modelled get_modelled returns_modelled)

lemma js_map_modelled:
  assumes "\<And>x. f x \<noteq> Unmodelled"
  shows "js_map v f \<noteq> Unmodelled"
proof (cases v)
  case (JArr xs)
  have "all_of (map f xs) \<noteq> Unmodelled"
  proof (rule all_of_modelled)
    fix y assume "y \<in> set (map f xs)"
    then obtain x where "y = f x" by auto
    with assms show "y \<noteq> Unmodelled" by simp
  qed
  with JArr show ?thesis by (simp add: js_map_def)
qed (simp_all add: js_map_def)

lemma renderContactsGroup_modelled: "renderContactsGroup el label xs \<noteq> Unmodelled"
  unfolding renderContactsGroup_def
  by (intro and_then_modelled if_modelled kv_modelled js_map_modelled contact_row_modelled
        returns_modelled)

lemma renderContactsGroup_presence:
  "renderContactsGroup el label xs = Returns h \<Longrightarrow> clear_block h = clear_block el"
  by (cases el)
     (auto simp: renderContactsGroup_def and_then_def clear_block_def
        split: outcome.splits if_splits)

lemma set_block_presence: "set_block el t = Returns h \<Longrightarrow> clear_block h = clear_block el"
  by (cases el) (auto simp: set_block_def clear_block_def)

lemma run_all_assign:
  assumes "rhs \<noteq> Unmodelled" "P s" "\<And>v. rhs = Returns v \<Longrightarrow> P (store v s)"
  shows "run_all P (assign rhs store s)"
  using assms by (cases rhs) (simp_all add: assign_def)

lemma run_all_seq:
  assumes "run_all P r" "\<And>s. P s \<Longrightarrow> run_all P (k s)"
  shows "run_all P (seq r k)"
  using assms by (cases r) (simp_all add: seq_def)

lemma contacts_frame_refl: "contacts_frame p p"
  by (simp add: contacts_frame_def)

lemma render_contacts_frame: "run_all (contacts_frame p) (render_contacts cdata p)"
proof (cases "get cdata ''contacts''")
  case (Returns v)
  define c where "c = js_or v (JObj [])"
  define airline where "airline = js_or (field c ''airline'') (field cdata ''airline'')"
  have 1: "run_all (contacts_frame p)
      (if truthy airline
       then assign (and_then (to_string airline) (\<lambda>a.
              set_block (contactsAirline p) (''Airline: <strong>'' @ a @ ''</strong>'')))
              (\<lambda>h p. p\<lparr>contactsAirline := h\<rparr>) p
       else Done p)"
  proof (cases "truthy airline")
    case True
    have "run_all (contacts_frame p)
       (assign (and_then (to_string airline) (\<lambda>a.
              set_block (contactsAirline p) (''Airline: <strong>'' @ a @ ''</strong>'')))
              (\<lambda>h p. p\<lparr>contactsAirline := h\<rparr>) p)"
    proof (rule run_all_assign)
      show "and_then (to_string airline) (\<lambda>a.
              set_block (contactsAirline p) (''Airline: <strong>'' @ a @ ''</strong>'')) \<noteq> Unmodelled"
        by (intro and_then_modelled to_string_modelled set_block_modelled)
      show "contacts_frame p p" by (rule contacts_frame_refl)
      fix h assume "and_then (to_string airline) (\<lambda>a.
              set_block (contactsAirline p) (''Airline: <strong>'' @ a @ ''</strong>'')) = Returns h"
      then obtain a where "set_block (contactsAirline p) (''Airline: <strong>'' @ a @ ''</strong>'') = Returns h"
        by (cases "to_string airline") (auto simp: and_then_def)
      from set_block_presence [OF this]
      show "contacts_frame p (p\<lparr>contactsAirline := h\<rparr>)" by (simp add: contacts_frame_def)
    qed
    with True show ?thesis by simp
  next
    case False
    then show ?thesis by (simp add: contacts_frame_refl)
  qed
  have 2: "run_all (contacts_frame p)
      (assign (renderContactsGroup (domContacts q) l xs) (\<lambda>h p. p\<lparr>domContacts := h\<rparr>) q)"
    if "contacts_frame p q" for q l xs
  proof (rule run_all_assign)
    show "renderContactsGroup (domContacts q) l xs \<noteq> Unmodelled" by (rule renderContactsGroup_modelled)
    show "contacts_frame p q" by (rule that)
    fix h assume "renderContactsGroup (domContacts q) l xs = Returns h"
    from renderContactsGroup_presence [OF this] that
    show "contacts_frame p (q\<lparr>domContacts := h\<rparr>)" by (simp add: contacts_frame_def)
  qed
  have 3: "run_all (contacts_frame p)
      (assign (renderContactsGroup (occContacts q) l xs) (\<lambda>h p. p\<lparr>occContacts := h\<rparr>) q)"
    if "contacts_frame p q" for q l xs
  proof (rule run_all_assign)
    show "renderContactsGroup (occContacts q) l xs \<noteq> Unmodelled" by (rule renderContactsGroup_modelled)
    show "contacts_frame p q" by (rule that)
    fix h assume "renderContactsGroup (occContacts q) l xs = Returns h"
    from renderContactsGroup_presence [OF this] that
    show "contacts_frame p (q\<lparr>occContacts := h\<rparr>)" by (simp add: contacts_frame_def)
  qed
  have 4: "run_all (contacts_frame p)
      (assign (renderContactsGroup (otherContacts q) l xs) (\<lambda>h p. p\<lparr>otherContacts := h\<rparr>) q)"
    if "contacts_frame p q" for q l xs
  proof (rule run_all_assign)
    show "renderContactsGroup (otherContacts q) l xs \<noteq> Unmodelled" by (rule renderContactsGroup_modelled)
    show "contacts_frame p q" by (rule that)
    fix h assume "renderContactsGroup (otherContacts q) l xs = Returns h"
    from renderContactsGroup_presence [OF this] that
    show "contacts_frame p (q\<lparr>otherContacts := h\<rparr>)" by (simp add: contacts_frame_def)
  qed
  show ?thesis
    unfolding render_contacts_def Returns outcome.case Let_def c_def [symmetric] airline_def [symmetric]
    by (intro run_all_seq 1 2 3 4)
next
  case (Throws e)
  then show ?thesis by (simp add: render_contacts_def contacts_frame_refl)
next
  case Unmodelled
  then show ?thesis using get_modelled by blast
qed

lemma contacts_try_frame: "run_all (contacts_frame p) (contacts_try r p)"
proof (cases r)
  case Rejected
  then show ?thesis by (simp add: contacts_try_def contacts_frame_refl)
next
  case (Response st body)
  show ?thesis
  proof (cases "ok st")
    case True
    then show ?thesis using Response render_contacts_frame
      by (cases body) (simp_all add: contacts_try_def contacts_frame_refl)
  next
    case False
    have "run_all (contacts_frame p)
       (assign (and_then (kv ''Contacts'' (JStr ''Contact lookup not available for this tail.''))
                         (set_block (domContacts p)))
                 (\<lambda>h p. p\<lparr>domContacts := h\<rparr>) p)"
    proof (rule run_all_assign)
      show "and_then (kv ''Contacts'' (JStr ''Contact lookup not available for this tail.''))
                         (set_block (domContacts p)) \<noteq> Unmodelled"
        by (intro and_then_modelled kv_modelled set_block_modelled)
      show "contacts_frame p p" by (rule contacts_frame_refl)
      fix h assume "and_then (kv ''Contacts'' (JStr ''Contact lookup not available for this tail.''))
                         (set_block (domContacts p)) = Returns h"
      then obtain t where "set_block (domContacts p) t = Returns h"
        by (cases "kv ''Contacts'' (JStr ''Contact lookup not available for this tail.'')")
           (auto simp: and_then_def)
      from set_block_presence [OF this]
      show "contacts_frame p (p\<lparr>domContacts := h\<rparr>)" by (simp add: contacts_frame_def)
    qed
    with False Response show ?thesis by (simp add: contacts_try_def)
  qed
qed

lemma contacts_catch_done:
  "domContacts p \<noteq> None \<Longrightarrow>
   contacts_catch e p =
     Done (p\<lparr>console := console p @ [ConsoleErrorContacts e],
             domContacts := Some (value_cell ''Contacts'' ''Contact lookup failed.'')\<rparr>)"
  by (simp add: contacts_catch_def Let_def kv_text assign_def)

lemma contacts_catch_frame:
  "contacts_frame p q \<Longrightarrow> \<exists>q'. contacts_catch e q = Done q' \<and> contacts_frame p q'
      \<and> console q' = console q @ [ConsoleErrorContacts e]"
  by (cases "domContacts q")
     (simp_all add: contacts_catch_def Let_def kv_text assign_def contacts_frame_def clear_block_def)

lemma on_contacts_demo_total:
  "\<exists>q. on_contacts_demo r p = Some q \<and> cards q = cards p \<and> err_hidden q = err_hidden p
      \<and> err_text q = err_text p \<and> \<not> results_hidden q \<and> spinner_display q = ''none''
      \<and> requests q = requests p
      \<and> clear_block (contactsAirline q) = clear_block (contactsAirline p)
      \<and> clear_block (domContacts q) = clear_block (domContacts p)
      \<and> clear_block (occContacts q) = clear_block (occContacts p)
      \<and> clear_block (otherContacts q) = clear_block (otherContacts p)"
proof (cases "contacts_try r p")
  case (Done q)
  with contacts_try_frame [of p r] have "contacts_frame p q" by simp
  with Done show ?thesis
    by (simp add: on_contacts_demo_def contacts_frame_def showSpinner_def)
next
  case (Raised e q)
  with contacts_try_frame [of p r] have "contacts_frame p q" by simp
  from contacts_catch_frame [OF this, of e] obtain q' where
    "contacts_catch e q = Done q'" "contacts_frame p q'" by blast
  with Raised show ?thesis
    by (simp add: on_contacts_demo_def contacts_frame_def showSpinner_def)
next
  case Outside
  with contacts_try_frame [of p r] show ?thesis by simp
qed

lemma on_contacts_demo_failure:
  assumes "domContacts p \<noteq> None"
    and "r = Rejected \<or> (\<exists>st body. r = Response st body \<and> \<not> ok st) \<or> (\<exists>st. r = Response st None)"
  shows "\<exists>q. on_contacts_demo r p = Some q
      \<and> cards q = cards p \<and> err_hidden q = err_hidden p \<and> err_text q = err_text p
      \<and> \<not> results_hidden q \<and> spinner_display q = ''none''
      \<and> contactsAirline q = contactsAirline p \<and> occContacts q = occContacts p
      \<and> otherContacts q = otherContacts p
      \<and> domContacts q = Some (value_cell ''Contacts''
            (if \<exists>st body. r = Response st body \<and> \<not> ok st
             then ''Contact lookup not available for this tail.'' else ''Contact lookup failed.''))"
proof -
  from assms(1) obtain old where old: "domContacts p = Some old" by auto
  consider (rej) "r = Rejected" | (status) st body where "r = Response st body" "\<not> ok st"
    | (parse) st where "r = Response st None" "ok st"
    using assms(2) by blast
  then show ?thesis
  proof cases
    case rej
    then show ?thesis using assms(1)
      by (simp add: on_contacts_demo_def contacts_try_def contacts_catch_done showSpinner_def)
  next
    case status
    then show ?thesis using old
      by (auto simp: on_contacts_demo_def contacts_try_def kv_text and_then_def set_block_def
            assign_def showSpinner_def)
  next
    case parse
    then show ?thesis using assms(1)
      by (simp add: on_contacts_demo_def contacts_try_def contacts_catch_done showSpinner_def)
  qed
qed

lemma seq_Done: "(seq r k = Done c) = (\<exists>c1. r = Done c1 \<and> k c1 = Done c)"
  by (cases r) (simp_all add: seq_def)

lemma blocks_present_reset: "blocks_present (reset_demo p) = blocks_present p"
  by (cases "contactsAirline p"; cases "domContacts p"; cases "occContacts p"; cases "otherContacts p")
     (simp_all add: blocks_present_def reset_demo_simps clear_block_def)

lemma lookup_demo_rendered:
  assumes "trim v \<noteq> []" "blocks_present p"
    and "primary_data (primary ev) = Returns data"
    and "seq (render_cards (now_adsb ev) data empty_cards) (render_rest (now_activity ev) data) = Done c"
  shows "lookup_demo ev v p = on_contacts_demo (contacts ev) (awaiting_contacts v data c p)"
proof -
  from assms(4) obtain c1 where c1: "render_cards (now_adsb ev) data empty_cards = Done c1"
    and c: "render_rest (now_activity ev) data c1 = Done c"
    by (auto simp: seq_Done)
  have bp: "blocks_present ((reset_demo p)\<lparr>requests := requests p @ [API_BASE @ aircraft_path (trim v)],
       cards := c1, console := console p @ [ConsoleLog (field data ''links'')], cards := c\<rparr>)"
    using assms(2) blocks_present_reset [of p] by (simp add: blocks_present_def)
  show ?thesis
    using assms(1,3) c1 c bp
    by (simp add: lookup_demo_def on_submit_demo_def validate_demo_def Let_def on_primary_demo_def
          reset_demo_simps awaiting_contacts_def)
qed

lemma awaiting_contacts_fields:
  "cards (awaiting_contacts v data c p) = c"
  "err_text (awaiting_contacts v data c p) = []"
  "err_hidden (awaiting_contacts v data c p)"
  "contactsAirline (awaiting_contacts v data c p) = clear_block (contactsAirline p)"
  "domContacts (awaiting_contacts v data c p) = clear_block (domContacts p)"
  "occContacts (awaiting_contacts v data c p) = clear_block (occContacts p)"
  "otherContacts (awaiting_contacts v data c p) = clear_block (otherContacts p)"
  by (simp_all add: awaiting_contacts_def reset_demo_simps)

lemma blocks_present_cleared:
  "blocks_present p \<Longrightarrow> clear_block (contactsAirline p) = Some [] \<and> clear_block (domContacts p) = Some []
     \<and> clear_block (occContacts p) = Some [] \<and> clear_block (otherContacts p) = Some []"
  by (auto simp: blocks_present_def clear_block_def)

text \<open>
  Claim C2. Let the aircraft request succeed and its payload render (the cards come out
  as \<open>c\<close>), on a page that has the four contact blocks. If the contacts request is
  rejected, answered with a status outside 200 to 299, or answered with a body that does not
  parse, the handler still ends with the results shown, the cards \<open>c\<close>, no error
  message, and the maintenance block reading "Contact lookup not available for this tail."
  (status) or "Contact lookup failed." (rejection, parse error), the other contact blocks
  empty. Whatever the contacts response is, the cards, the error region and the
  results region end the same.
\<close>

theorem contacts_failure_is_isolated:
  assumes "trim v \<noteq> []" "blocks_present p"
    and "primary_data (primary ev) = Returns data"
    and "seq (render_cards (now_adsb ev) data empty_cards) (render_rest (now_activity ev) data) = Done c"
    and "contacts ev = Rejected \<or> (\<exists>st body. contacts ev = Response st body \<and> \<not> ok st)
         \<or> (\<exists>st. contacts ev = Response st None)"
  shows "(\<exists>q. lookup_demo ev v p = Some q
            \<and> cards q = c \<and> \<not> results_hidden q \<and> err_text q = [] \<and> err_hidden q
            \<and> spinner_display q = ''none''
            \<and> contactsAirline q = Some [] \<and> occContacts q = Some [] \<and> otherContacts q = Some []
            \<and> domContacts q = Some (value_cell ''Contacts''
                 (if \<exists>st body. contacts ev = Response st body \<and> \<not> ok st
                  then ''Contact lookup not available for this tail.'' else ''Contact lookup failed.'')))
       \<and> (\<forall>r. \<exists>q'. lookup_demo (ev\<lparr>contacts := r\<rparr>) v p = Some q'
            \<and> cards q' = c \<and> \<not> results_hidden q' \<and> err_text q' = [] \<and> err_hidden q'
            \<and> spinner_display q' = ''none'')"
proof (intro conjI allI)
  note cl = blocks_present_cleared [OF assms(2)]
  have dom: "domContacts (awaiting_contacts v data c p) \<noteq> None"
    using cl by (simp add: awaiting_contacts_fields)
  from on_contacts_demo_failure [OF dom assms(5)]
  show "\<exists>q. lookup_demo ev v p = Some q
            \<and> cards q = c \<and> \<not> results_hidden q \<and> err_text q = [] \<and> err_hidden q
            \<and> spinner_display q = ''none''
            \<and> contactsAirline q = Some [] \<and> occContacts q = Some [] \<and> otherContacts q = Some []
            \<and> domContacts q = Some (value_cell ''Contacts''
                 (if \<exists>st body. contacts ev = Response st body \<and> \<not> ok st
                  then ''Contact lookup not available for this tail.'' else ''Contact lookup failed.''))"
    unfolding lookup_demo_rendered [OF assms(1-4)]
    using cl by (auto simp: awaiting_contacts_fields)
next
  fix r
  have "lookup_demo (ev\<lparr>contacts := r\<rparr>) v p = on_contacts_demo r (awaiting_contacts v data c p)"
    using lookup_demo_rendered [of v p "ev\<lparr>contacts := r\<rparr>" data c] assms(1-4) by simp
  with on_contacts_demo_total [of r "awaiting_contacts v data c p"]
  show "\<exists>q'. lookup_demo (ev\<lparr>contacts := r\<rparr>) v p = Some q'
            \<and> cards q' = c \<and> \<not> results_hidden q' \<and> err_text q' = [] \<and> err_hidden q'
            \<and> spinner_display q' = ''none''"
    by (auto simp: awaiting_contacts_fields)
qed

lemma trim_plain: "trim ''N123AB'' = ''N123AB''"
  by (simp add: trim_def strip.simps prefix_len_def white_space_def)

lemma sample_rendered:
  "\<exists>c. seq (render_cards 0 sample_payload empty_cards) (render_rest 0 sample_payload) = Done c"
  by (simp add: sample_payload_def seq_def render_cards_def render_rest_def assign_def
        fr24Card_html_def fr24Link_html_def regCard_html_def regLink_html_def adsbCard_html_def
        adsbLink_html_def targetCard_html_def activityCard_html_def render_flights_def
        joined_def and_then_def field_def js_or_def Let_def kv_def source_link_def filter_join_def
        js_map_def js_join_def top_airports_def placeLabel_def baseConf_text_def
        fractional_owner_text_def emdash_def show_int_def show_nat.simps digit_char_def)

theorem contacts_failure_is_isolated_witness:
  "\<exists>q. lookup_demo (sample_env\<lparr>primary := Response 200 (Some sample_payload)\<rparr>) ''N123AB'' blank_page = Some q
      \<and> \<not> results_hidden q \<and> err_text q = []
      \<and> contactsAirline q = Some [] \<and> occContacts q = Some [] \<and> otherContacts q = Some []
      \<and> domContacts q = Some (value_cell ''Contacts'' ''Contact lookup failed.'')"
proof -
  let ?ev = "sample_env\<lparr>primary := Response 200 (Some sample_payload)\<rparr>"
  have t: "trim ''N123AB'' \<noteq> []" by (simp add: trim_plain)
  have b: "blocks_present blank_page" by (simp add: blocks_present_def blank_page_def)
  have d: "primary_data (primary ?ev) = Returns sample_payload"
    by (simp add: primary_data_def ok_def)
  from sample_rendered obtain c where
    c: "seq (render_cards (now_adsb ?ev) sample_payload empty_cards)
          (render_rest (now_activity ?ev) sample_payload) = Done c"
    by (auto simp: sample_env_def)
  have f: "contacts ?ev = Rejected \<or> (\<exists>st body. contacts ?ev = Response st body \<and> \<not> ok st)
         \<or> (\<exists>st. contacts ?ev = Response st None)"
    by (simp add: sample_env_def)
  have n: "\<not> (\<exists>st body. contacts ?ev = Response st body \<and> \<not> ok st)"
    by (simp add: sample_env_def)
  from contacts_failure_is_isolated [OF t b d c f] n
  show ?thesis by auto
qed

subsection \<open>The handlers return\<close>

lemma all_of_Cons_modelled:
  "x \<noteq> Unmodelled \<Longrightarrow> all_of xs \<noteq> Unmodelled \<Longrightarrow> all_of (x # xs) \<noteq> Unmodelled"
  by (simp only: all_of.simps) (intro and_then_modelled returns_modelled; simp)

lemma all_of_Nil_modelled: "all_of [] \<noteq> Unmodelled"
  by simp

lemma joined_modelled: "all_of xs \<noteq> Unmodelled \<Longrightarrow> joined xs \<noteq> Unmodelled"
  unfolding joined_def by (intro and_then_modelled returns_modelled)

lemma and_then_Returns: "and_then (Returns v) f = f v"
  by (simp add: and_then_def)

lemma formatAgo_modelled:
  assumes "epoch_modelled v"
  shows "formatAgo now v \<noteq> Unmodelled"
proof (cases "truthy v")
  case True
  with assms obtain e where "v = JNum e" "e \<noteq> 0"
    by (cases v) (simp_all add: epoch_modelled_def)
  then show ?thesis by (simp add: formatAgo_number)
next
  case False
  then show ?thesis by (simp add: formatAgo_falsy)
qed

lemma pill_modelled: "pill a b \<noteq> Unmodelled"
  unfolding pill_def by (intro and_then_modelled to_string_modelled returns_modelled)

lemma source_link_modelled: "source_link u n \<noteq> Unmodelled"
  unfolding source_link_def by (intro if_modelled and_then_modelled to_string_modelled returns_modelled)

lemma filter_join_modelled: "filter_join xs sep \<noteq> Unmodelled"
  unfolding filter_join_def by (intro and_then_modelled to_string_modelled returns_modelled)

lemma js_join_modelled: "js_join v sep \<noteq> Unmodelled"
proof (cases v)
  case (JArr xs)
  have "and_then (elem_strings xs) (\<lambda>ss. Returns (join sep ss)) \<noteq> Unmodelled"
    by (intro and_then_modelled to_string_modelled returns_modelled)
  with JArr show ?thesis by (simp add: js_join_def)
qed (simp_all add: js_join_def)

lemmas modelled_intros =
  and_then_modelled if_modelled joined_modelled all_of_Cons_modelled all_of_Nil_modelled
  to_string_modelled kv_modelled get_modelled returns_modelled pill_modelled source_link_modelled
  filter_join_modelled js_join_modelled js_map_modelled

lemma fr24Card_modelled: "fr24Card_html data \<noteq> Unmodelled"
  unfolding fr24Card_html_def Let_def by (intro modelled_intros)

lemma fr24Link_modelled: "fr24Link_html data \<noteq> Unmodelled"
  unfolding fr24Link_html_def by (intro modelled_intros)

lemma regCard_modelled: "regCard_html data \<noteq> Unmodelled"
  unfolding regCard_html_def Let_def by (intro modelled_intros)

lemma regLink_modelled: "regLink_html data \<noteq> Unmodelled"
  unfolding regLink_html_def by (intro modelled_intros)

lemma adsbCard_modelled:
  assumes "epochs_modelled data"
  shows "adsbCard_html now data \<noteq> Unmodelled"
proof (cases "get data ''adsb''")
  case (Returns v)
  then have "field data ''adsb'' = v" by (simp add: field_def)
  with assms have "epoch_modelled (field (js_or v (JObj [])) ''pos_epoch'')"
    by (simp add: epochs_modelled_def)
  then have "formatAgo now (field (js_or v (JObj [])) ''pos_epoch'') \<noteq> Unmodelled"
    by (rule formatAgo_modelled)
  then show ?thesis
    unfolding adsbCard_html_def Returns and_then_Returns Let_def
    by (intro modelled_intros)
qed (simp_all add: adsbCard_html_def and_then_def get_modelled)

lemma adsbLink_modelled: "adsbLink_html data \<noteq> Unmodelled"
  unfolding adsbLink_html_def by (intro modelled_intros)

lemma role_badge_modelled: "role_badge r \<noteq> Unmodelled"
  unfolding role_badge_def by (intro modelled_intros)

lemma overnight_badge_modelled: "overnight_badge r \<noteq> Unmodelled"
  unfolding overnight_badge_def by (intro modelled_intros)

lemma targetCard_modelled: "targetCard_html data \<noteq> Unmodelled"
  unfolding targetCard_html_def Let_def
  by (intro modelled_intros role_badge_modelled overnight_badge_modelled)

lemma airport_pill_modelled: "airport_pill a \<noteq> Unmodelled"
  unfolding airport_pill_def by (intro modelled_intros)

lemma placeLabel_modelled: "placeLabel l \<noteq> Unmodelled"
  unfolding placeLabel_def by (intro modelled_intros)

lemma top_airports_modelled: "top_airports data k \<noteq> Unmodelled"
  unfolding top_airports_def by (intro modelled_intros airport_pill_modelled)

lemma activityCard_modelled:
  assumes "epochs_modelled data"
  shows "activityCard_html now data \<noteq> Unmodelled"
proof (cases "get data ''last_spotted''")
  case (Returns v)
  then have "field data ''last_spotted'' = v" by (simp add: field_def)
  with assms have "epoch_modelled (field (js_or v (JObj [])) ''epoch'')"
    by (simp add: epochs_modelled_def)
  then have "formatAgo now (field (js_or v (JObj [])) ''epoch'') \<noteq> Unmodelled"
    by (rule formatAgo_modelled)
  then show ?thesis
    unfolding activityCard_html_def Returns and_then_Returns Let_def
    by (intro modelled_intros placeLabel_modelled top_airports_modelled)
qed (simp_all add: activityCard_html_def and_then_def get_modelled)

lemma flight_row_modelled: "flight_row_html f \<noteq> Unmodelled"
  unfolding flight_row_html_def by (intro modelled_intros)

lemma assign_inside: "rhs \<noteq> Unmodelled \<Longrightarrow> assign rhs st s \<noteq> Outside"
  by (cases rhs) (simp_all add: assign_def)

lemma seq_inside: "r \<noteq> Outside \<Longrightarrow> (\<And>s. k s \<noteq> Outside) \<Longrightarrow> seq r k \<noteq> Outside"
  by (cases r) (simp_all add: seq_def)

lemma append_rows_inside: "append_rows fs c \<noteq> Outside"
proof (induction fs arbitrary: c)
  case Nil
  then show ?case by simp
next
  case (Cons f fs)
  show ?case
    by (simp only: append_rows.simps) (intro seq_inside assign_inside flight_row_modelled Cons)
qed

lemma render_flights_inside: "render_flights data c \<noteq> Outside"
proof (cases "get data ''recent_flights''")
  case (Returns v)
  then show ?thesis
    by (cases "js_or v (JArr [])") (simp_all add: render_flights_def append_rows_inside)
next
  case (Throws e)
  then show ?thesis by (simp add: render_flights_def)
next
  case Unmodelled
  then show ?thesis using get_modelled by blast
qed

lemma render_cards_inside: "epochs_modelled data \<Longrightarrow> render_cards now data c \<noteq> Outside"
  unfolding render_cards_def
  by (intro seq_inside assign_inside fr24Card_modelled fr24Link_modelled regCard_modelled
        regLink_modelled adsbCard_modelled adsbLink_modelled)

lemma render_rest_inside: "epochs_modelled data \<Longrightarrow> render_rest now data c \<noteq> Outside"
  unfolding render_rest_def
  by (intro seq_inside assign_inside targetCard_modelled activityCard_modelled render_flights_inside)

lemma primary_data_modelled: "primary_data r \<noteq> Unmodelled"
  by (cases r) (auto simp: primary_data_def split: option.splits)

lemma on_primary_static_returns:
  assumes "\<And>data. primary_data r = Returns data \<Longrightarrow> epochs_modelled data"
  shows "on_primary_static t1 t2 r p \<noteq> None"
proof (cases "primary_data r")
  case (Returns data)
  from assms [OF Returns] have "seq (render_cards t1 data (cards p)) (render_rest t2 data) \<noteq> Outside"
    by (intro seq_inside render_cards_inside render_rest_inside)
  with Returns show ?thesis
    by (cases "seq (render_cards t1 data (cards p)) (render_rest t2 data)")
       (simp_all add: on_primary_static_def)
next
  case (Throws e)
  then show ?thesis by (simp add: on_primary_static_def)
next
  case Unmodelled
  then show ?thesis using primary_data_modelled by blast
qed

lemma lookup_static_returns:
  assumes "\<And>data. primary_data (primary ev) = Returns data \<Longrightarrow> epochs_modelled data"
  shows "lookup_static ev v p \<noteq> None"
  using on_primary_static_returns [OF assms]
  by (simp add: lookup_static_def on_submit_static_def validate_static_def Let_def)


lemma on_primary_demo_returns:
  assumes "\<And>data. primary_data r = Returns data \<Longrightarrow> epochs_modelled data"
  shows "on_primary_demo t1 t2 n r p \<noteq> None"
proof (cases "primary_data r")
  case (Returns data)
  note m = assms [OF Returns]
  show ?thesis
  proof (cases "render_cards t1 data (cards p)")
    case (Done c1)
    show ?thesis
      using Returns Done render_rest_inside [OF m, of t2 c1]
      by (cases "render_rest t2 data c1") (auto simp: on_primary_demo_def Let_def)
  next
    case (Raised e c)
    then show ?thesis using Returns by (simp add: on_primary_demo_def)
  next
    case Outside
    then show ?thesis using render_cards_inside [OF m] by blast
  qed
next
  case (Throws e)
  then show ?thesis by (simp add: on_primary_demo_def)
next
  case Unmodelled
  then show ?thesis using primary_data_modelled by blast
qed

lemma lookup_demo_returns:
  assumes "\<And>data. primary_data (primary ev) = Returns data \<Longrightarrow> epochs_modelled data"
  shows "lookup_demo ev v p \<noteq> None"
proof (cases "trim v = []")
  case True
  then show ?thesis by (simp add: lookup_demo_def on_submit_demo_def validate_demo_def)
next
  case False
  define p1 where "p1 = (reset_demo p)\<lparr>requests := requests (reset_demo p) @ [API_BASE @ aircraft_path (trim v)]\<rparr>"
  have "on_primary_demo (now_adsb ev) (now_activity ev) (trim v) (primary ev) p1 \<noteq> None"
    by (rule on_primary_demo_returns) (rule assms)
  then obtain p2 f where p2: "on_primary_demo (now_adsb ev) (now_activity ev) (trim v) (primary ev) p1 = Some (p2, f)"
    by (cases "on_primary_demo (now_adsb ev) (now_activity ev) (trim v) (primary ev) p1") auto
  from on_contacts_demo_total [of "contacts ev" p2] obtain q where
    "on_contacts_demo (contacts ev) p2 = Some q" by blast
  with False p2 show ?thesis
    by (cases f) (simp_all add: lookup_demo_def on_submit_demo_def validate_demo_def Let_def p1_def)
qed

subsection \<open>The two variants of the handler\<close>

lemma primary_view_on_contacts:
  "\<exists>q. on_contacts_demo r p = Some q
     \<and> primary_view q = (cards p, err_text p, err_hidden p, False, ''none'')"
  using on_contacts_demo_total [of r p] by (auto simp: primary_view_def)

lemma primary_view_failed:
  "primary_view (lookup_failed e p) =
     (cards p, ''Lookup failed. Try again in a moment or verify the N-number.'', False,
      results_hidden p, ''none'')"
  by (simp add: primary_view_def lookup_failed_simps)

lemma after_primary_alike:
  assumes "cards ps = cards pd" "err_text ps = err_text pd" "err_hidden ps = err_hidden pd"
    "results_hidden ps = results_hidden pd"
  shows "map_option primary_view (on_primary_static t1 t2 r ps) =
         map_option primary_view
           (case on_primary_demo t1 t2 n r pd of
              None \<Rightarrow> None
            | Some (p2, False) \<Rightarrow> Some p2
            | Some (p2, True) \<Rightarrow> on_contacts_demo rc p2)"
proof (cases "primary_data r")
  case (Returns data)
  show ?thesis
  proof (cases "render_cards t1 data (cards pd)")
    case (Done c1)
    show ?thesis
    proof (cases "render_rest t2 data c1")
      case c: (Done c)
      define p2 where "p2 = pd\<lparr>cards := c1, console := console pd @ [ConsoleLog (field data ''links'')],
         cards := c\<rparr>"
      have st: "on_primary_static t1 t2 r ps = Some (showSpinner False (ps\<lparr>cards := c, results_hidden := False\<rparr>))"
        using Returns Done c assms(1) by (simp add: on_primary_static_def seq_def)
      show ?thesis
      proof (cases "blocks_present p2")
        case True
        then have d: "on_primary_demo t1 t2 n r pd = Some (p2\<lparr>requests := requests p2 @ [contacts_url n]\<rparr>, True)"
          using Returns Done c by (simp add: on_primary_demo_def Let_def p2_def)
        from primary_view_on_contacts [of rc "p2\<lparr>requests := requests p2 @ [contacts_url n]\<rparr>"]
        obtain q where "on_contacts_demo rc (p2\<lparr>requests := requests p2 @ [contacts_url n]\<rparr>) = Some q"
          "primary_view q = (c, err_text pd, err_hidden pd, False, ''none'')"
          by (auto simp: p2_def)
        then show ?thesis
          unfolding st d using assms by (simp add: primary_view_def showSpinner_def)
      next
        case False
        then have d: "on_primary_demo t1 t2 n r pd = Some (showSpinner False (p2\<lparr>results_hidden := False\<rparr>), False)"
          using Returns Done c by (simp add: on_primary_demo_def Let_def p2_def)
        show ?thesis
          unfolding st d using assms by (simp add: primary_view_def showSpinner_def p2_def)
      qed
    next
      case (Raised e c)
      then show ?thesis using Returns Done assms
        by (simp add: on_primary_static_def on_primary_demo_def seq_def Let_def primary_view_failed)
    next
      case Outside
      then show ?thesis using Returns Done assms
        by (simp add: on_primary_static_def on_primary_demo_def seq_def Let_def)
    qed
  next
    case (Raised e c)
    then show ?thesis using Returns assms
      by (simp add: on_primary_static_def on_primary_demo_def seq_def primary_view_failed)
  next
    case Outside
    then show ?thesis using Returns assms
      by (simp add: on_primary_static_def on_primary_demo_def seq_def)
  qed
next
  case (Throws e)
  then show ?thesis using assms
    by (simp add: on_primary_static_def on_primary_demo_def primary_view_failed)
next
  case Unmodelled
  then show ?thesis by (simp add: on_primary_static_def on_primary_demo_def)
qed

lemma on_primary_static_blocks:
  "on_primary_static t1 t2 r p = Some q \<Longrightarrow>
     contactsAirline q = contactsAirline p \<and> domContacts q = domContacts p
     \<and> occContacts q = occContacts p \<and> otherContacts q = otherContacts p"
  by (auto simp: on_primary_static_def lookup_failed_simps showSpinner_def
        split: outcome.splits run.splits)

text \<open>
  Claim C10. From the same page, with the same responses and clock readings, the two variants
  end with the same cards (flight meta, registry, telemetry, targeting, activity, flights
  table), the same error region, results region and spinner, or both leave the modelled
  fragment; both do end when the epochs of the payload are numbers or falsy. Their
  aircraft requests differ by the base URL only, and the variant without the contacts
  directory never touches the contact blocks.
\<close>

theorem variants_render_alike:
  "map_option primary_view (lookup_static ev v p) = map_option primary_view (lookup_demo ev v p)
   \<and> (trim v \<noteq> [] \<longrightarrow>
        requests (fst (on_submit_static v p)) = requests p @ [aircraft_path (trim v)]
        \<and> requests (fst (on_submit_demo v p)) = requests p @ [API_BASE @ aircraft_path (trim v)])
   \<and> (\<forall>q. lookup_static ev v p = Some q \<longrightarrow>
        contactsAirline q = contactsAirline p \<and> domContacts q = domContacts p
        \<and> occContacts q = occContacts p \<and> otherContacts q = otherContacts p)
   \<and> ((\<forall>data. primary_data (primary ev) = Returns data \<longrightarrow> epochs_modelled data) \<longrightarrow>
        lookup_static ev v p \<noteq> None \<and> lookup_demo ev v p \<noteq> None)"
proof (intro conjI impI allI)
  assume "\<forall>data. primary_data (primary ev) = Returns data \<longrightarrow> epochs_modelled data"
  then show "lookup_static ev v p \<noteq> None" by (intro lookup_static_returns) blast
next
  assume "\<forall>data. primary_data (primary ev) = Returns data \<longrightarrow> epochs_modelled data"
  then show "lookup_demo ev v p \<noteq> None" by (intro lookup_demo_returns) blast
next
  show "map_option primary_view (lookup_static ev v p) = map_option primary_view (lookup_demo ev v p)"
  proof (cases "trim v = []")
    case True
    then show ?thesis
      by (simp add: lookup_static_def lookup_demo_def on_submit_static_def on_submit_demo_def
            validate_static_def validate_demo_def primary_view_def showSpinner_def setError_def
            reset_static_simps reset_demo_simps)
  next
    case False
    have "map_option primary_view
            (on_primary_static (now_adsb ev) (now_activity ev) (primary ev)
               ((reset_static p)\<lparr>requests := requests p @ [aircraft_path (trim v)]\<rparr>)) =
          map_option primary_view
            (case on_primary_demo (now_adsb ev) (now_activity ev) (trim v) (primary ev)
                    ((reset_demo p)\<lparr>requests := requests p @ [API_BASE @ aircraft_path (trim v)]\<rparr>) of
               None \<Rightarrow> None
             | Some (p2, False) \<Rightarrow> Some p2
             | Some (p2, True) \<Rightarrow> on_contacts_demo (contacts ev) p2)"
      by (rule after_primary_alike) (simp_all add: reset_static_simps reset_demo_simps)
    with False show ?thesis
      by (simp add: lookup_static_def lookup_demo_def on_submit_static_def on_submit_demo_def
            validate_static_def validate_demo_def Let_def reset_static_simps reset_demo_simps)
  qed
next
  assume "trim v \<noteq> []"
  then show "requests (fst (on_submit_static v p)) = requests p @ [aircraft_path (trim v)]"
    by (simp add: on_submit_static_def validate_static_def Let_def reset_static_simps)
next
  assume "trim v \<noteq> []"
  then show "requests (fst (on_submit_demo v p)) = requests p @ [API_BASE @ aircraft_path (trim v)]"
    by (simp add: on_submit_demo_def validate_demo_def Let_def reset_demo_simps)
next
  fix q assume q: "lookup_static ev v p = Some q"
  have "contactsAirline q = contactsAirline p \<and> domContacts q = domContacts p
        \<and> occContacts q = occContacts p \<and> otherContacts q = otherContacts p"
  proof (cases "trim v = []")
    case True
    with q show ?thesis
      by (auto simp: lookup_static_def on_submit_static_def validate_static_def showSpinner_def
            setError_def reset_static_simps)
  next
    case False
    with q have "on_primary_static (now_adsb ev) (now_activity ev) (primary ev)
               ((reset_static p)\<lparr>requests := requests p @ [aircraft_path (trim v)]\<rparr>) = Some q"
      by (simp add: lookup_static_def on_submit_static_def validate_static_def Let_def
            reset_static_simps)
    from on_primary_static_blocks [OF this] show ?thesis by (simp add: reset_static_simps)
  qed
  then show "contactsAirline q = contactsAirline p" "domContacts q = domContacts p"
    "occContacts q = occContacts p" "otherContacts q = otherContacts p" by simp_all
qed

theorem variants_render_alike_witness:
  "trim ''N123AB'' \<noteq> []
   \<and> requests (fst (on_submit_static ''N123AB'' blank_page)) = [''/api/aircraft?n=N123AB&use_adsb=true'']
   \<and> requests (fst (on_submit_demo ''N123AB'' blank_page))
       = [''https://demo-flight.onrender.com/api/aircraft?n=N123AB&use_adsb=true'']
   \<and> map_option primary_view
        (lookup_static (sample_env\<lparr>primary := Response 200 (Some sample_payload)\<rparr>) ''N123AB'' blank_page)
     = map_option primary_view
        (lookup_demo (sample_env\<lparr>primary := Response 200 (Some sample_payload)\<rparr>) ''N123AB'' blank_page)
   \<and> lookup_static (sample_env\<lparr>primary := Response 200 (Some sample_payload)\<rparr>) ''N123AB'' blank_page
       \<noteq> None"
proof -
  have m: "\<forall>data. primary_data (primary (sample_env\<lparr>primary := Response 200 (Some sample_payload)\<rparr>))
              = Returns data \<longrightarrow> epochs_modelled data"
    by (simp add: primary_data_def ok_def sample_payload_def epochs_modelled_def epoch_modelled_def
          field_def js_or_def)
  have t: "trim ''N123AB'' \<noteq> []" by (simp add: trim_plain)
  have r: "requests blank_page = []" by (simp add: blank_page_def)
  have a: "aircraft_path ''N123AB'' = ''/api/aircraft?n=N123AB&use_adsb=true''"
    by (simp add: aircraft_path_def encodeURIComponent_def escape_byte_def unreserved_def)
  from variants_render_alike [of "sample_env\<lparr>primary := Response 200 (Some sample_payload)\<rparr>"
      "''N123AB''" blank_page] t m
  show ?thesis by (simp add: trim_plain r a API_BASE_def)
qed

subsection \<open>Repeating a lookup\<close>

lemma seen_adsb:
  "adsbCard_html 1000000 seen_payload \<noteq> adsbCard_html 1060000 seen_payload"
  by (simp add: seen_payload_def adsbCard_html_def joined_def and_then_def field_def js_or_def
        Let_def kv_def filter_join_def formatAgo_def emdash_def show_int_def show_nat.simps
        digit_char_def)

lemma append_rows_adsb: "append_rows fs c = Done c' \<Longrightarrow> adsbCard c' = adsbCard c"
proof (induction fs arbitrary: c)
  case Nil
  then show ?case by simp
next
  case (Cons f fs)
  then show ?case
    by (cases "flight_row_html f") (auto simp: seq_def assign_def)
qed

lemma render_rest_adsb: "render_rest t data c = Done c' \<Longrightarrow> adsbCard c' = adsbCard c"
  by (auto simp: render_rest_def render_flights_def seq_def assign_def
        split: outcome.splits jsval.splits dest!: append_rows_adsb)

lemma render_cards_adsb:
  "render_cards t data c = Done c' \<Longrightarrow> adsbCard_html t data = Returns (adsbCard c')"
  by (auto simp: render_cards_def seq_def assign_def split: outcome.splits)

lemma rendered_adsb:
  "seq (render_cards t data c0) (render_rest t' data) = Done c \<Longrightarrow>
   adsbCard_html t data = Returns (adsbCard c)"
  by (auto simp: seq_Done dest!: render_rest_adsb render_cards_adsb)

lemma rendered_fields:
  "cards (rendered p) = cards p"
  "err_text (rendered p) = err_text p"
  "err_hidden (rendered p) = err_hidden p"
  "results_hidden (rendered p) = results_hidden p"
  "spinner_display (rendered p) = spinner_display p"
  "contactsAirline (rendered p) = contactsAirline p"
  "domContacts (rendered p) = domContacts p"
  "occContacts (rendered p) = occContacts p"
  "otherContacts (rendered p) = otherContacts p"
  by (simp_all add: rendered_def)

lemma alike_fields:
  assumes "alike a b"
  shows "cards a = cards b" "err_text a = err_text b" "err_hidden a = err_hidden b"
    "results_hidden a = results_hidden b" "spinner_display a = spinner_display b"
    "contactsAirline a = contactsAirline b" "domContacts a = domContacts b"
    "occContacts a = occContacts b" "otherContacts a = otherContacts b"
proof -
  from assms have e: "rendered a = rendered b" by (simp add: alike_def)
  show "cards a = cards b" using arg_cong [OF e, of cards] by (simp add: rendered_fields)
  show "err_text a = err_text b" using arg_cong [OF e, of err_text] by (simp add: rendered_fields)
  show "err_hidden a = err_hidden b" using arg_cong [OF e, of err_hidden] by (simp add: rendered_fields)
  show "results_hidden a = results_hidden b" using arg_cong [OF e, of results_hidden] by (simp add: rendered_fields)
  show "spinner_display a = spinner_display b" using arg_cong [OF e, of spinner_display] by (simp add: rendered_fields)
  show "contactsAirline a = contactsAirline b" using arg_cong [OF e, of contactsAirline] by (simp add: rendered_fields)
  show "domContacts a = domContacts b" using arg_cong [OF e, of domContacts] by (simp add: rendered_fields)
  show "occContacts a = occContacts b" using arg_cong [OF e, of occContacts] by (simp add: rendered_fields)
  show "otherContacts a = otherContacts b" using arg_cong [OF e, of otherContacts] by (simp add: rendered_fields)
qed

lemma alikeI:
  assumes "cards a = cards b" "err_text a = err_text b" "err_hidden a = err_hidden b"
    "results_hidden a = results_hidden b" "spinner_display a = spinner_display b"
    "contactsAirline a = contactsAirline b" "domContacts a = domContacts b"
    "occContacts a = occContacts b" "otherContacts a = otherContacts b"
  shows "alike a b"
  unfolding alike_def rendered_def using assms by (intro page.equality) simp_all

lemma alike_refl: "alike a a"
  by (simp add: alike_def)

lemma alike_update:
  assumes "alike a b"
  shows "alike (a\<lparr>contactsAirline := h\<rparr>) (b\<lparr>contactsAirline := h\<rparr>)"
    "alike (a\<lparr>domContacts := h\<rparr>) (b\<lparr>domContacts := h\<rparr>)"
    "alike (a\<lparr>occContacts := h\<rparr>) (b\<lparr>occContacts := h\<rparr>)"
    "alike (a\<lparr>otherContacts := h\<rparr>) (b\<lparr>otherContacts := h\<rparr>)"
    "alike (a\<lparr>console := x\<rparr>) (b\<lparr>console := y\<rparr>)"
    "alike (a\<lparr>requests := u\<rparr>) (b\<lparr>requests := w\<rparr>)"
    "alike (a\<lparr>cards := c\<rparr>) (b\<lparr>cards := c\<rparr>)"
    "alike (a\<lparr>results_hidden := f\<rparr>) (b\<lparr>results_hidden := f\<rparr>)"
    "alike (showSpinner s a) (showSpinner s b)"
    "alike (setError m a) (setError m b)"
  using alike_fields [OF assms] by (auto intro!: alikeI simp: showSpinner_def setError_def)

lemma run_rel_assign:
  assumes "R a b" "\<And>v. R (st v a) (st v b)"
  shows "run_rel R (assign rhs st a) (assign rhs st b)"
  using assms by (cases rhs) (simp_all add: assign_def)

lemma run_rel_seq:
  assumes "run_rel R r r'" "\<And>a b. R a b \<Longrightarrow> run_rel R (k a) (k' b)"
  shows "run_rel R (seq r k) (seq r' k')"
  using assms by (cases r; cases r') (simp_all add: seq_def)

lemma alike_failed: "alike a b \<Longrightarrow> alike (lookup_failed e a) (lookup_failed e b)"
  unfolding lookup_failed_def by (intro alike_update)

lemma render_contacts_alike:
  assumes ab: "alike a b"
  shows "run_rel alike (render_contacts cdata a) (render_contacts cdata b)"
proof (cases "get cdata ''contacts''")
  case (Returns v)
  define c where "c = js_or v (JObj [])"
  define airline where "airline = js_or (field c ''airline'') (field cdata ''airline'')"
  have 1: "run_rel alike
      (if truthy airline
       then assign (and_then (to_string airline) (\<lambda>s.
              set_block (contactsAirline a) (''Airline: <strong>'' @ s @ ''</strong>'')))
              (\<lambda>h p. p\<lparr>contactsAirline := h\<rparr>) a
       else Done a)
      (if truthy airline
       then assign (and_then (to_string airline) (\<lambda>s.
              set_block (contactsAirline b) (''Airline: <strong>'' @ s @ ''</strong>'')))
              (\<lambda>h p. p\<lparr>contactsAirline := h\<rparr>) b
       else Done b)"
    using ab alike_fields(6) [OF ab] by (auto intro!: run_rel_assign alike_update)
  have 2: "run_rel alike
      (assign (renderContactsGroup (domContacts x) l xs) (\<lambda>h p. p\<lparr>domContacts := h\<rparr>) x)
      (assign (renderContactsGroup (domContacts y) l xs) (\<lambda>h p. p\<lparr>domContacts := h\<rparr>) y)"
    if "alike x y" for x y l xs
    using that alike_fields(7) [OF that] by (auto intro!: run_rel_assign alike_update)
  have 3: "run_rel alike
      (assign (renderContactsGroup (occContacts x) l xs) (\<lambda>h p. p\<lparr>occContacts := h\<rparr>) x)
      (assign (renderContactsGroup (occContacts y) l xs) (\<lambda>h p. p\<lparr>occContacts := h\<rparr>) y)"
    if "alike x y" for x y l xs
    using that alike_fields(8) [OF that] by (auto intro!: run_rel_assign alike_update)
  have 4: "run_rel alike
      (assign (renderContactsGroup (otherContacts x) l xs) (\<lambda>h p. p\<lparr>otherContacts := h\<rparr>) x)
      (assign (renderContactsGroup (otherContacts y) l xs) (\<lambda>h p. p\<lparr>otherContacts := h\<rparr>) y)"
    if "alike x y" for x y l xs
    using that alike_fields(9) [OF that] by (auto intro!: run_rel_assign alike_update)
  show ?thesis
    unfolding render_contacts_def Returns outcome.case Let_def c_def [symmetric] airline_def [symmetric]
    by (intro run_rel_seq 1 2 3 4)
next
  case (Throws e)
  then show ?thesis using ab by (simp add: render_contacts_def)
next
  case Unmodelled
  then show ?thesis by (simp add: render_contacts_def)
qed

lemma contacts_try_alike:
  assumes ab: "alike a b"
  shows "run_rel alike (contacts_try r a) (contacts_try r b)"
proof (cases r)
  case Rejected
  then show ?thesis using ab by (simp add: contacts_try_def)
next
  case (Response st body)
  show ?thesis
  proof (cases "ok st")
    case True
    then show ?thesis using Response ab render_contacts_alike [OF ab]
      by (cases body) (simp_all add: contacts_try_def)
  next
    case False
    have "run_rel alike
       (assign (and_then (kv ''Contacts'' (JStr ''Contact lookup not available for this tail.''))
                         (set_block (domContacts a)))
                 (\<lambda>h p. p\<lparr>domContacts := h\<rparr>) a)
       (assign (and_then (kv ''Contacts'' (JStr ''Contact lookup not available for this tail.''))
                         (set_block (domContacts b)))
                 (\<lambda>h p. p\<lparr>domContacts := h\<rparr>) b)"
      using ab alike_fields(7) [OF ab] by (auto intro!: run_rel_assign alike_update)
    with False Response show ?thesis by (simp add: contacts_try_def)
  qed
qed

lemma contacts_catch_alike:
  assumes ab: "alike a b"
  shows "run_rel alike (contacts_catch e a) (contacts_catch e b)"
proof -
  have al: "alike (a\<lparr>console := console a @ [ConsoleErrorContacts e]\<rparr>)
                  (b\<lparr>console := console b @ [ConsoleErrorContacts e]\<rparr>)"
    using ab by (rule alike_update)
  show ?thesis
    unfolding contacts_catch_def Let_def
    using al alike_fields(7) [OF ab]
    by (auto intro!: run_rel_assign alike_update)
qed

lemma on_contacts_alike:
  assumes ab: "alike a b"
  shows "rel_option alike (on_contacts_demo r a) (on_contacts_demo r b)"
proof -
  have 1: "run_rel alike
     (case contacts_try r a of Raised e p' \<Rightarrow> contacts_catch e p' | other \<Rightarrow> other)
     (case contacts_try r b of Raised e p' \<Rightarrow> contacts_catch e p' | other \<Rightarrow> other)"
    using contacts_try_alike [OF ab, of r]
    by (cases "contacts_try r a"; cases "contacts_try r b") (simp_all add: contacts_catch_alike)
  show ?thesis
    unfolding on_contacts_demo_def
    using 1
    by (cases "case contacts_try r a of Raised e p' \<Rightarrow> contacts_catch e p' | other \<Rightarrow> other";
        cases "case contacts_try r b of Raised e p' \<Rightarrow> contacts_catch e p' | other \<Rightarrow> other")
       (simp_all add: alike_failed alike_update)
qed

lemma blocks_present_alike: "alike a b \<Longrightarrow> blocks_present a = blocks_present b"
  by (simp add: blocks_present_def alike_fields)

lemma on_primary_demo_alike:
  assumes ab: "alike a b"
  shows "rel_option (\<lambda>x y. alike (fst x) (fst y) \<and> snd x = snd y)
           (on_primary_demo t1 t2 n r a) (on_primary_demo t1 t2 n r b)"
proof (cases "primary_data r")
  case (Returns data)
  note cb = alike_fields(1) [OF ab]
  show ?thesis
  proof (cases "render_cards t1 data (cards b)")
    case (Done c1)
    have al1: "alike (a\<lparr>cards := c1, console := console a @ [ConsoleLog (field data ''links'')]\<rparr>)
         (b\<lparr>cards := c1, console := console b @ [ConsoleLog (field data ''links'')]\<rparr>)"
      using ab by (intro alike_update)
    show ?thesis
    proof (cases "render_rest t2 data c1")
      case c: (Done c)
      have al2: "alike (a\<lparr>cards := c1, console := console a @ [ConsoleLog (field data ''links'')], cards := c\<rparr>)
         (b\<lparr>cards := c1, console := console b @ [ConsoleLog (field data ''links'')], cards := c\<rparr>)"
        using ab by (intro alike_update)
      from blocks_present_alike [OF al2] al2
      show ?thesis using Returns Done c cb
        by (auto simp: on_primary_demo_def Let_def intro!: alike_update)
    next
      case (Raised e c)
      have "alike (a\<lparr>cards := c1, console := console a @ [ConsoleLog (field data ''links'')], cards := c\<rparr>)
         (b\<lparr>cards := c1, console := console b @ [ConsoleLog (field data ''links'')], cards := c\<rparr>)"
        using ab by (intro alike_update)
      then show ?thesis using Returns Done Raised cb
        by (simp add: on_primary_demo_def Let_def alike_failed)
    next
      case Outside
      then show ?thesis using Returns Done cb by (simp add: on_primary_demo_def Let_def)
    qed
  next
    case (Raised e c)
    have "alike (a\<lparr>cards := c\<rparr>) (b\<lparr>cards := c\<rparr>)" using ab by (intro alike_update)
    then show ?thesis using Returns Raised cb by (simp add: on_primary_demo_def alike_failed)
  next
    case Outside
    then show ?thesis using Returns cb by (simp add: on_primary_demo_def)
  qed
next
  case (Throws e)
  then show ?thesis using ab by (simp add: on_primary_demo_def alike_failed)
next
  case Unmodelled
  then show ?thesis by (simp add: on_primary_demo_def)
qed

lemma on_primary_static_alike:
  assumes ab: "alike a b"
  shows "rel_option alike (on_primary_static t1 t2 r a) (on_primary_static t1 t2 r b)"
proof (cases "primary_data r")
  case (Returns data)
  note cb = alike_fields(1) [OF ab]
  show ?thesis
  proof (cases "seq (render_cards t1 data (cards b)) (render_rest t2 data)")
    case (Done c)
    have "alike (showSpinner False (a\<lparr>cards := c, results_hidden := False\<rparr>))
                (showSpinner False (b\<lparr>cards := c, results_hidden := False\<rparr>))"
      using ab by (intro alike_update)
    then show ?thesis using Returns Done cb by (simp add: on_primary_static_def)
  next
    case (Raised e c)
    have "alike (a\<lparr>cards := c\<rparr>) (b\<lparr>cards := c\<rparr>)" using ab by (intro alike_update)
    then show ?thesis using Returns Raised cb by (simp add: on_primary_static_def alike_failed)
  next
    case Outside
    then show ?thesis using Returns cb by (simp add: on_primary_static_def)
  qed
next
  case (Throws e)
  then show ?thesis using ab by (simp add: on_primary_static_def alike_failed)
next
  case Unmodelled
  then show ?thesis by (simp add: on_primary_static_def)
qed

lemma seen_rendered:
  "\<exists>c. seq (render_cards t seen_payload empty_cards) (render_rest t' seen_payload) = Done c"
  by (simp add: seen_payload_def seq_def render_cards_def render_rest_def assign_def
        fr24Card_html_def fr24Link_html_def regCard_html_def regLink_html_def adsbCard_html_def
        adsbLink_html_def targetCard_html_def activityCard_html_def render_flights_def
        joined_def and_then_def field_def js_or_def Let_def kv_def source_link_def filter_join_def
        js_map_def js_join_def top_airports_def placeLabel_def baseConf_text_def formatAgo_number
        fractional_owner_text_def emdash_def)

lemma seen_lookup:
  "\<exists>q. lookup_demo \<lparr>primary = Response 200 (Some seen_payload), contacts = Rejected,
          now_adsb = t, now_activity = t'\<rparr> ''N123AB'' blank_page = Some q
      \<and> adsbCard_html t seen_payload = Returns (adsbCard (cards q))"
proof -
  let ?ev = "\<lparr>primary = Response 200 (Some seen_payload), contacts = Rejected,
          now_adsb = t, now_activity = t'\<rparr>"
  from seen_rendered [of t t'] obtain c where
    c: "seq (render_cards (now_adsb ?ev) seen_payload empty_cards)
          (render_rest (now_activity ?ev) seen_payload) = Done c" by auto
  have "lookup_demo ?ev ''N123AB'' blank_page =
          on_contacts_demo (contacts ?ev) (awaiting_contacts ''N123AB'' seen_payload c blank_page)"
    by (rule lookup_demo_rendered [OF _ _ _ c])
       (simp_all add: trim_plain blocks_present_def blank_page_def primary_data_def ok_def)
  moreover from on_contacts_demo_total [of "contacts ?ev" "awaiting_contacts ''N123AB'' seen_payload c blank_page"]
  obtain q where "on_contacts_demo (contacts ?ev) (awaiting_contacts ''N123AB'' seen_payload c blank_page) = Some q"
    "cards q = c" by (auto simp: awaiting_contacts_fields)
  moreover from c have "adsbCard_html t seen_payload = Returns (adsbCard c)"
    using rendered_adsb by simp
  ultimately show ?thesis by simp
qed

text \<open>
  Claim C5 as stated fails: with the same tail number and the same payload (telemetry epoch
  1000 s), a lookup at clock reading 1000000 ms and one at 1060000 ms end with different
  cards; the "Last seen" cell reads "0 sec ago" in the first and "1 min ago" in the second.
\<close>

theorem lookup_clock_counterexample:
  "map_option cards
     (lookup_demo \<lparr>primary = Response 200 (Some seen_payload), contacts = Rejected,
        now_adsb = 1000000, now_activity = 1000000\<rparr> ''N123AB'' blank_page)
   \<noteq> map_option cards
     (lookup_demo \<lparr>primary = Response 200 (Some seen_payload), contacts = Rejected,
        now_adsb = 1060000, now_activity = 1060000\<rparr> ''N123AB'' blank_page)
   \<and> formatAgo 1000000 (JNum 1000) = Returns ''0 sec ago''
   \<and> formatAgo 1060000 (JNum 1000) = Returns ''1 min ago''"
proof (intro conjI)
  from seen_lookup [of 1000000 1000000] obtain q1 where
    q1: "lookup_demo \<lparr>primary = Response 200 (Some seen_payload), contacts = Rejected,
        now_adsb = 1000000, now_activity = 1000000\<rparr> ''N123AB'' blank_page = Some q1"
    "adsbCard_html 1000000 seen_payload = Returns (adsbCard (cards q1))" by blast
  from seen_lookup [of 1060000 1060000] obtain q2 where
    q2: "lookup_demo \<lparr>primary = Response 200 (Some seen_payload), contacts = Rejected,
        now_adsb = 1060000, now_activity = 1060000\<rparr> ''N123AB'' blank_page = Some q2"
    "adsbCard_html 1060000 seen_payload = Returns (adsbCard (cards q2))" by blast
  from q1(2) q2(2) seen_adsb have "cards q1 \<noteq> cards q2" by auto
  then show "map_option cards
     (lookup_demo \<lparr>primary = Response 200 (Some seen_payload), contacts = Rejected,
        now_adsb = 1000000, now_activity = 1000000\<rparr> ''N123AB'' blank_page)
   \<noteq> map_option cards
     (lookup_demo \<lparr>primary = Response 200 (Some seen_payload), contacts = Rejected,
        now_adsb = 1060000, now_activity = 1060000\<rparr> ''N123AB'' blank_page)"
    unfolding q1(1) q2(1) by simp
next
  show "formatAgo 1000000 (JNum 1000) = Returns ''0 sec ago''"
    by (simp add: formatAgo_def show_int_def show_nat.simps digit_char_def)
  show "formatAgo 1060000 (JNum 1000) = Returns ''1 min ago''"
    by (simp add: formatAgo_def show_int_def show_nat.simps digit_char_def)
qed

lemma clear_block_idem: "clear_block (clear_block el) = clear_block el"
  by (cases el) (simp_all add: clear_block_def)

lemma reset_demo_alike:
  assumes "clear_block (contactsAirline a) = clear_block (contactsAirline b)"
    "clear_block (domContacts a) = clear_block (domContacts b)"
    "clear_block (occContacts a) = clear_block (occContacts b)"
    "clear_block (otherContacts a) = clear_block (otherContacts b)"
  shows "alike (reset_demo a) (reset_demo b)"
  using assms by (intro alikeI) (simp_all add: reset_demo_simps)

lemma reset_static_alike:
  assumes "contactsAirline a = contactsAirline b" "domContacts a = domContacts b"
    "occContacts a = occContacts b" "otherContacts a = otherContacts b"
  shows "alike (reset_static a) (reset_static b)"
  using assms by (intro alikeI) (simp_all add: reset_static_simps)

lemma after_reset_demo_alike:
  assumes ab: "alike a b"
  shows "rel_option alike
     (case validate_demo v a of
        (p1, None) \<Rightarrow> Some p1
      | (p1, Some n) \<Rightarrow>
          (case on_primary_demo t1 t2 n r p1 of
             None \<Rightarrow> None
           | Some (p2, False) \<Rightarrow> Some p2
           | Some (p2, True) \<Rightarrow> on_contacts_demo rc p2))
     (case validate_demo v b of
        (p1, None) \<Rightarrow> Some p1
      | (p1, Some n) \<Rightarrow>
          (case on_primary_demo t1 t2 n r p1 of
             None \<Rightarrow> None
           | Some (p2, False) \<Rightarrow> Some p2
           | Some (p2, True) \<Rightarrow> on_contacts_demo rc p2))"
proof (cases "trim v = []")
  case True
  have "alike (showSpinner False (setError ''Please enter an N-number.'' a))
              (showSpinner False (setError ''Please enter an N-number.'' b))"
    using ab by (intro alike_update)
  with True show ?thesis by (simp add: validate_demo_def)
next
  case False
  define a1 where "a1 = a\<lparr>requests := requests a @ [API_BASE @ aircraft_path (trim v)]\<rparr>"
  define b1 where "b1 = b\<lparr>requests := requests b @ [API_BASE @ aircraft_path (trim v)]\<rparr>"
  have al: "alike a1 b1" unfolding a1_def b1_def using ab by (rule alike_update)
  have va: "validate_demo v a = (a1, Some (trim v))" and vb: "validate_demo v b = (b1, Some (trim v))"
    using False by (simp_all add: validate_demo_def Let_def a1_def b1_def)
  from on_primary_demo_alike [OF al, of t1 t2 "trim v" r]
  show ?thesis
    unfolding va vb
    by (cases "on_primary_demo t1 t2 (trim v) r a1"; cases "on_primary_demo t1 t2 (trim v) r b1")
       (auto simp: on_contacts_alike split: bool.splits)
qed

lemma lookup_demo_alike:
  assumes "clear_block (contactsAirline a) = clear_block (contactsAirline b)"
    "clear_block (domContacts a) = clear_block (domContacts b)"
    "clear_block (occContacts a) = clear_block (occContacts b)"
    "clear_block (otherContacts a) = clear_block (otherContacts b)"
  shows "rel_option alike (lookup_demo ev v a) (lookup_demo ev v b)"
  unfolding lookup_demo_def on_submit_demo_def
  by (rule after_reset_demo_alike) (rule reset_demo_alike [OF assms])

lemma lookup_static_alike:
  assumes "contactsAirline a = contactsAirline b" "domContacts a = domContacts b"
    "occContacts a = occContacts b" "otherContacts a = otherContacts b"
  shows "rel_option alike (lookup_static ev v a) (lookup_static ev v b)"
proof -
  note ab = reset_static_alike [OF assms]
  show ?thesis
  proof (cases "trim v = []")
    case True
    have "alike (showSpinner False (setError ''Please enter an N-number.'' (reset_static a)))
              (showSpinner False (setError ''Please enter an N-number.'' (reset_static b)))"
      using ab by (intro alike_update)
    with True show ?thesis
      by (simp add: lookup_static_def on_submit_static_def validate_static_def)
  next
    case False
    have "alike ((reset_static a)\<lparr>requests := requests (reset_static a) @ [aircraft_path (trim v)]\<rparr>)
                ((reset_static b)\<lparr>requests := requests (reset_static b) @ [aircraft_path (trim v)]\<rparr>)"
      using ab by (rule alike_update)
    from on_primary_static_alike [OF this] False show ?thesis
      by (simp add: lookup_static_def on_submit_static_def validate_static_def Let_def)
  qed
qed

lemma on_primary_demo_blocks:
  "on_primary_demo t1 t2 n r p = Some (q, f) \<Longrightarrow>
     contactsAirline q = contactsAirline p \<and> domContacts q = domContacts p
     \<and> occContacts q = occContacts p \<and> otherContacts q = otherContacts p"
  by (auto simp: on_primary_demo_def Let_def lookup_failed_simps showSpinner_def
        split: outcome.splits run.splits if_splits)

lemma lookup_demo_blocks:
  assumes "lookup_demo ev v p = Some q"
  shows "clear_block (contactsAirline q) = clear_block (contactsAirline p)
     \<and> clear_block (domContacts q) = clear_block (domContacts p)
     \<and> clear_block (occContacts q) = clear_block (occContacts p)
     \<and> clear_block (otherContacts q) = clear_block (otherContacts p)"
proof (cases "trim v = []")
  case True
  with assms show ?thesis
    by (auto simp: lookup_demo_def on_submit_demo_def validate_demo_def showSpinner_def setError_def
          reset_demo_simps clear_block_idem)
next
  case False
  define p1 where "p1 = (reset_demo p)\<lparr>requests := requests p @ [API_BASE @ aircraft_path (trim v)]\<rparr>"
  have p1: "contactsAirline p1 = clear_block (contactsAirline p)" "domContacts p1 = clear_block (domContacts p)"
    "occContacts p1 = clear_block (occContacts p)" "otherContacts p1 = clear_block (otherContacts p)"
    by (simp_all add: p1_def reset_demo_simps)
  from assms False have l: "(case on_primary_demo (now_adsb ev) (now_activity ev) (trim v) (primary ev) p1 of
             None \<Rightarrow> None
           | Some (p2, False) \<Rightarrow> Some p2
           | Some (p2, True) \<Rightarrow> on_contacts_demo (contacts ev) p2) = Some q"
    by (simp add: lookup_demo_def on_submit_demo_def validate_demo_def Let_def p1_def reset_demo_simps)
  then obtain p2 f where p2: "on_primary_demo (now_adsb ev) (now_activity ev) (trim v) (primary ev) p1 = Some (p2, f)"
    by (cases "on_primary_demo (now_adsb ev) (now_activity ev) (trim v) (primary ev) p1") auto
  note b2 = on_primary_demo_blocks [OF p2]
  show ?thesis
  proof (cases f)
    case True
    with l p2 have "on_contacts_demo (contacts ev) p2 = Some q" by simp
    with on_contacts_demo_total [of "contacts ev" p2] b2 p1 show ?thesis
      by (auto simp: clear_block_idem)
  next
    case False
    with l p2 have "q = p2" by simp
    with b2 p1 show ?thesis by (simp add: clear_block_idem)
  qed
qed

lemma lookup_static_blocks:
  assumes "lookup_static ev v p = Some q"
  shows "contactsAirline q = contactsAirline p \<and> domContacts q = domContacts p
        \<and> occContacts q = occContacts p \<and> otherContacts q = otherContacts p"
proof (cases "trim v = []")
  case True
  with assms show ?thesis
    by (auto simp: lookup_static_def on_submit_static_def validate_static_def showSpinner_def
          setError_def reset_static_simps)
next
  case False
  with assms have "on_primary_static (now_adsb ev) (now_activity ev) (primary ev)
             ((reset_static p)\<lparr>requests := requests p @ [aircraft_path (trim v)]\<rparr>) = Some q"
    by (simp add: lookup_static_def on_submit_static_def validate_static_def Let_def
          reset_static_simps)
  from on_primary_static_blocks [OF this] show ?thesis by (simp add: reset_static_simps)
qed

text \<open>
  Claim C5, as amended. Running the lookup again on the page that a first run left, for the
  same input, the same responses and the same clock readings, ends with a page that is
  rendered exactly like the first (all cards, links, flights table, contact blocks, error
  and results regions, spinner); this holds for both variants of the handler.
\<close>

theorem lookup_idempotent:
  "(lookup_demo ev v p = Some q \<longrightarrow>
      (\<exists>q'. lookup_demo ev v q = Some q' \<and> rendered q' = rendered q))
   \<and> (lookup_static ev v p = Some q \<longrightarrow>
      (\<exists>q'. lookup_static ev v q = Some q' \<and> rendered q' = rendered q))"
proof (intro conjI impI)
  assume q: "lookup_demo ev v p = Some q"
  from lookup_demo_blocks [OF q]
  have "rel_option alike (lookup_demo ev v q) (lookup_demo ev v p)"
    by (intro lookup_demo_alike) simp_all
  then show "\<exists>q'. lookup_demo ev v q = Some q' \<and> rendered q' = rendered q"
    unfolding q by (cases "lookup_demo ev v q") (simp_all add: alike_def)
next
  assume q: "lookup_static ev v p = Some q"
  from lookup_static_blocks [OF q]
  have "rel_option alike (lookup_static ev v q) (lookup_static ev v p)"
    by (intro lookup_static_alike) simp_all
  then show "\<exists>q'. lookup_static ev v q = Some q' \<and> rendered q' = rendered q"
    unfolding q by (cases "lookup_static ev v q") (simp_all add: alike_def)
qed

theorem lookup_idempotent_witness:
  "\<exists>q q'. lookup_demo \<lparr>primary = Response 200 (Some seen_payload), contacts = Rejected,
              now_adsb = 1060000, now_activity = 1060000\<rparr> ''N123AB'' blank_page = Some q
     \<and> lookup_demo \<lparr>primary = Response 200 (Some seen_payload), contacts = Rejected,
              now_adsb = 1060000, now_activity = 1060000\<rparr> ''N123AB'' q = Some q'
     \<and> rendered q' = rendered q"
proof -
  from seen_lookup [of 1060000 1060000] obtain q where
    q: "lookup_demo \<lparr>primary = Response 200 (Some seen_payload), contacts = Rejected,
              now_adsb = 1060000, now_activity = 1060000\<rparr> ''N123AB'' blank_page = Some q"
    by blast
  with lookup_idempotent [of "\<lparr>primary = Response 200 (Some seen_payload), contacts = Rejected,
              now_adsb = 1060000, now_activity = 1060000\<rparr>" "''N123AB''" blank_page q]
  show ?thesis by blast
qed

subsection \<open>Overlapping queries\<close>

lemma lookup_demo_resume:
  "lookup_demo ev v p =
     (case on_submit_demo v p of (p1, None) \<Rightarrow> Some p1 | (p1, Some n) \<Rightarrow> resume_demo ev n p1)"
  by (simp add: lookup_demo_def resume_demo_def split: prod.splits option.splits)

lemma lookup_static_resume:
  "lookup_static ev v p =
     (case on_submit_static v p of
        (p1, None) \<Rightarrow> Some p1
      | (p1, Some n) \<Rightarrow> on_primary_static (now_adsb ev) (now_activity ev) (primary ev) p1)"
  by (simp add: lookup_static_def)

lemma on_primary_static_rendered:
  assumes "primary_data r = Returns data"
    and "seq (render_cards t1 data (cards p)) (render_rest t2 data) = Done c"
  shows "on_primary_static t1 t2 r p
           = Some (showSpinner False (p\<lparr>cards := c, results_hidden := False\<rparr>))"
  using assms by (simp add: on_primary_static_def)

lemma resume_demo_rendered:
  assumes "primary_data (primary ev) = Returns data"
    and "seq (render_cards (now_adsb ev) data (cards p)) (render_rest (now_activity ev) data) = Done c"
  shows "\<exists>q. resume_demo ev n p = Some q \<and> cards q = c \<and> \<not> results_hidden q"
proof -
  from assms(2) obtain c1 where c1: "render_cards (now_adsb ev) data (cards p) = Done c1"
    and c: "render_rest (now_activity ev) data c1 = Done c"
    by (auto simp: seq_Done)
  define p2 where "p2 = p\<lparr>cards := c1, console := console p @ [ConsoleLog (field data ''links'')],
     cards := c\<rparr>"
  show ?thesis
  proof (cases "blocks_present p2")
    case True
    then have "on_primary_demo (now_adsb ev) (now_activity ev) n (primary ev) p
        = Some (p2\<lparr>requests := requests p2 @ [contacts_url n]\<rparr>, True)"
      using assms(1) c1 c by (simp add: on_primary_demo_def Let_def p2_def)
    then have "resume_demo ev n p
        = on_contacts_demo (contacts ev) (p2\<lparr>requests := requests p2 @ [contacts_url n]\<rparr>)"
      by (simp add: resume_demo_def)
    with on_contacts_demo_total [of "contacts ev" "p2\<lparr>requests := requests p2 @ [contacts_url n]\<rparr>"]
    show ?thesis by (auto simp: p2_def)
  next
    case False
    then have "on_primary_demo (now_adsb ev) (now_activity ev) n (primary ev) p
        = Some (showSpinner False (p2\<lparr>results_hidden := False\<rparr>), False)"
      using assms(1) c1 c by (simp add: on_primary_demo_def Let_def p2_def)
    then show ?thesis by (simp add: resume_demo_def showSpinner_def p2_def)
  qed
qed

lemma trim_other: "trim ''N999ZZ'' = ''N999ZZ''"
  by (simp add: trim_def strip.simps prefix_len_def white_space_def)

lemma newer_static_fields:
  "on_submit_static ''N999ZZ'' (fst (on_submit_static ''N123AB'' blank_page))
     = (newer_static, Some ''N999ZZ'')"
  "cards newer_static = empty_cards" "results_hidden newer_static"
  "requests newer_static = [aircraft_path ''N123AB'', aircraft_path ''N999ZZ'']"
  by (simp_all add: newer_static_def on_submit_static_def validate_static_def Let_def
        trim_plain trim_other reset_static_simps blank_page_def)

lemma newer_demo_fields:
  "on_submit_demo ''N999ZZ'' (fst (on_submit_demo ''N123AB'' blank_page))
     = (newer_demo, Some ''N999ZZ'')"
  "cards newer_demo = empty_cards" "results_hidden newer_demo"
  "requests newer_demo = [API_BASE @ aircraft_path ''N123AB'', API_BASE @ aircraft_path ''N999ZZ'']"
  by (simp_all add: newer_demo_def on_submit_demo_def validate_demo_def Let_def
        trim_plain trim_other reset_demo_simps blank_page_def)

lemma older_primary: "primary_data (primary older_env) = Returns seen_payload"
  by (simp add: older_env_def primary_data_def ok_def)

lemma older_rendered:
  "\<exists>c. seq (render_cards (now_adsb older_env) seen_payload empty_cards)
          (render_rest (now_activity older_env) seen_payload) = Done c
       \<and> c \<noteq> empty_cards"
proof -
  from seen_rendered [of 1000000 1000000] obtain c where
    c: "seq (render_cards (now_adsb older_env) seen_payload empty_cards)
          (render_rest (now_activity older_env) seen_payload) = Done c"
    by (auto simp: older_env_def)
  have "adsbCard_html 1000000 seen_payload \<noteq> Returns []"
    by (simp add: seen_payload_def adsbCard_html_def joined_def and_then_def field_def js_or_def
          Let_def kv_def filter_join_def formatAgo_def emdash_def show_int_def show_nat.simps
          digit_char_def)
  with rendered_adsb [OF c] have "c \<noteq> empty_cards"
    by (auto simp: older_env_def empty_cards_def)
  with c show ?thesis by blast
qed

text \<open>
  Claim C9 as stated fails. \<open>N123AB\<close> is submitted on the blank page and then, before its
  response has arrived, \<open>N999ZZ\<close>. The second handler has reset the page and waits for its
  response: the cards are empty and the results are hidden. The response to \<open>N123AB\<close> arrives
  now. The first handler goes on where it had stopped, has no check that its query is still
  the latest one, and renders: the results are shown and the cards are those of \<open>N123AB\<close>, as
  if \<open>N999ZZ\<close> had never been submitted, while the request for \<open>N999ZZ\<close> is in flight. This
  holds in both variants of the handler.
\<close>

theorem stale_response_counterexample:
  "on_submit_static ''N999ZZ'' (fst (on_submit_static ''N123AB'' blank_page))
     = (newer_static, Some ''N999ZZ'')
   \<and> cards newer_static = empty_cards \<and> results_hidden newer_static
   \<and> requests newer_static = [aircraft_path ''N123AB'', aircraft_path ''N999ZZ'']
   \<and> map_option results_hidden
        (on_primary_static (now_adsb older_env) (now_activity older_env) (primary older_env)
           newer_static)
       = Some False
   \<and> map_option cards
        (on_primary_static (now_adsb older_env) (now_activity older_env) (primary older_env)
           newer_static)
       \<noteq> Some empty_cards
   \<and> map_option cards
        (on_primary_static (now_adsb older_env) (now_activity older_env) (primary older_env)
           newer_static)
       = map_option cards (lookup_static older_env ''N123AB'' blank_page)
   \<and> on_submit_demo ''N999ZZ'' (fst (on_submit_demo ''N123AB'' blank_page))
       = (newer_demo, Some ''N999ZZ'')
   \<and> cards newer_demo = empty_cards \<and> results_hidden newer_demo
   \<and> requests newer_demo
       = [API_BASE @ aircraft_path ''N123AB'', API_BASE @ aircraft_path ''N999ZZ'']
   \<and> map_option results_hidden (resume_demo older_env ''N123AB'' newer_demo) = Some False
   \<and> map_option cards (resume_demo older_env ''N123AB'' newer_demo) \<noteq> Some empty_cards
   \<and> map_option cards (resume_demo older_env ''N123AB'' newer_demo)
       = map_option cards (lookup_demo older_env ''N123AB'' blank_page)"
proof -
  from older_rendered obtain c where
    c: "seq (render_cards (now_adsb older_env) seen_payload empty_cards)
          (render_rest (now_activity older_env) seen_payload) = Done c"
    and ne: "c \<noteq> empty_cards"
    by blast
  have first_static: "cards (fst (on_submit_static ''N123AB'' blank_page)) = empty_cards"
    and first_demo: "cards (fst (on_submit_demo ''N123AB'' blank_page)) = empty_cards"
    by (simp_all add: on_submit_static_def validate_static_def on_submit_demo_def validate_demo_def
          Let_def trim_plain reset_static_simps reset_demo_simps)
  have s1: "on_primary_static (now_adsb older_env) (now_activity older_env) (primary older_env)
              newer_static
      = Some (showSpinner False (newer_static\<lparr>cards := c, results_hidden := False\<rparr>))"
    by (rule on_primary_static_rendered [OF older_primary]) (simp add: newer_static_fields c)
  have "on_primary_static (now_adsb older_env) (now_activity older_env) (primary older_env)
            (fst (on_submit_static ''N123AB'' blank_page))
      = Some (showSpinner False
          ((fst (on_submit_static ''N123AB'' blank_page))\<lparr>cards := c, results_hidden := False\<rparr>))"
    by (rule on_primary_static_rendered [OF older_primary]) (simp add: first_static c)
  then have s2: "lookup_static older_env ''N123AB'' blank_page
      = Some (showSpinner False
          ((fst (on_submit_static ''N123AB'' blank_page))\<lparr>cards := c, results_hidden := False\<rparr>))"
    by (simp add: lookup_static_def on_submit_static_def validate_static_def Let_def trim_plain)
  from resume_demo_rendered [OF older_primary, of newer_demo c "''N123AB''"] c obtain q1 where
    q1: "resume_demo older_env ''N123AB'' newer_demo = Some q1" "cards q1 = c"
      "\<not> results_hidden q1"
    by (auto simp: newer_demo_fields)
  from resume_demo_rendered
    [OF older_primary, of "fst (on_submit_demo ''N123AB'' blank_page)" c "''N123AB''"] c
  obtain q2 where
    q2: "resume_demo older_env ''N123AB'' (fst (on_submit_demo ''N123AB'' blank_page)) = Some q2"
      "cards q2 = c"
    by (auto simp: first_demo)
  have d2: "lookup_demo older_env ''N123AB'' blank_page = Some q2"
    using q2(1)
    by (simp add: lookup_demo_resume on_submit_demo_def validate_demo_def Let_def trim_plain)
  show ?thesis
    unfolding s1 s2 q1(1) d2
    using ne q1 q2 by (simp add: newer_static_fields newer_demo_fields showSpinner_def)
qed

text \<open>
  Claim C9, as amended. The handler validates the query on the page as the reset left it:
  all cards, the source links and the flights table are empty, each contact block that
  exists is empty, the error region is empty and hidden and the results region is hidden.
  This is the page on which the handler suspends for its aircraft request, and it still
  holds for the sections when the query is rejected. The handler after its response is the
  same whatever has happened to the page in between: on any page \<open>p'\<close>, that of a newer
  query in flight included, a payload that renders is written to the cards and the results
  are shown.
\<close>

theorem submit_resets_first:
  "on_submit_demo v p = validate_demo v (reset_demo p)
   \<and> on_submit_static v p = validate_static v (reset_static p)
   \<and> cards (reset_demo p) = empty_cards \<and> cards (reset_static p) = empty_cards
   \<and> err_text (reset_demo p) = [] \<and> err_hidden (reset_demo p)
   \<and> err_text (reset_static p) = [] \<and> err_hidden (reset_static p)
   \<and> results_hidden (reset_demo p) \<and> results_hidden (reset_static p)
   \<and> (contactsAirline (reset_demo p) = None \<or> contactsAirline (reset_demo p) = Some [])
   \<and> (domContacts (reset_demo p) = None \<or> domContacts (reset_demo p) = Some [])
   \<and> (occContacts (reset_demo p) = None \<or> occContacts (reset_demo p) = Some [])
   \<and> (otherContacts (reset_demo p) = None \<or> otherContacts (reset_demo p) = Some [])
   \<and> (trim v \<noteq> [] \<longrightarrow>
        on_submit_demo v p =
          ((reset_demo p)\<lparr>requests := requests p @ [API_BASE @ aircraft_path (trim v)]\<rparr>, Some (trim v))
        \<and> on_submit_static v p =
          ((reset_static p)\<lparr>requests := requests p @ [aircraft_path (trim v)]\<rparr>, Some (trim v)))
   \<and> (trim v = [] \<longrightarrow>
        cards (fst (on_submit_demo v p)) = empty_cards
        \<and> cards (fst (on_submit_static v p)) = empty_cards
        \<and> results_hidden (fst (on_submit_demo v p))
        \<and> results_hidden (fst (on_submit_static v p))
        \<and> contactsAirline (fst (on_submit_demo v p)) = contactsAirline (reset_demo p)
        \<and> domContacts (fst (on_submit_demo v p)) = domContacts (reset_demo p)
        \<and> occContacts (fst (on_submit_demo v p)) = occContacts (reset_demo p)
        \<and> otherContacts (fst (on_submit_demo v p)) = otherContacts (reset_demo p))
   \<and> lookup_demo ev v p =
       (case on_submit_demo v p of
          (p1, None) \<Rightarrow> Some p1
        | (p1, Some n) \<Rightarrow> resume_demo ev n p1)
   \<and> lookup_static ev v p =
       (case on_submit_static v p of
          (p1, None) \<Rightarrow> Some p1
        | (p1, Some n) \<Rightarrow> on_primary_static (now_adsb ev) (now_activity ev) (primary ev) p1)
   \<and> (primary_data (primary ev) = Returns data
        \<and> seq (render_cards (now_adsb ev) data (cards p')) (render_rest (now_activity ev) data)
            = Done c \<longrightarrow>
        on_primary_static (now_adsb ev) (now_activity ev) (primary ev) p'
          = Some (showSpinner False (p'\<lparr>cards := c, results_hidden := False\<rparr>))
        \<and> (\<exists>q. resume_demo ev m p' = Some q \<and> cards q = c \<and> \<not> results_hidden q))"
proof -
  have reset:
    "on_submit_demo v p = validate_demo v (reset_demo p)
     \<and> on_submit_static v p = validate_static v (reset_static p)
     \<and> cards (reset_demo p) = empty_cards \<and> cards (reset_static p) = empty_cards
     \<and> err_text (reset_demo p) = [] \<and> err_hidden (reset_demo p)
     \<and> err_text (reset_static p) = [] \<and> err_hidden (reset_static p)
     \<and> results_hidden (reset_demo p) \<and> results_hidden (reset_static p)
     \<and> (contactsAirline (reset_demo p) = None \<or> contactsAirline (reset_demo p) = Some [])
     \<and> (domContacts (reset_demo p) = None \<or> domContacts (reset_demo p) = Some [])
     \<and> (occContacts (reset_demo p) = None \<or> occContacts (reset_demo p) = Some [])
     \<and> (otherContacts (reset_demo p) = None \<or> otherContacts (reset_demo p) = Some [])
     \<and> (trim v \<noteq> [] \<longrightarrow>
          on_submit_demo v p =
            ((reset_demo p)\<lparr>requests := requests p @ [API_BASE @ aircraft_path (trim v)]\<rparr>, Some (trim v))
          \<and> on_submit_static v p =
            ((reset_static p)\<lparr>requests := requests p @ [aircraft_path (trim v)]\<rparr>, Some (trim v)))
     \<and> (trim v = [] \<longrightarrow>
          cards (fst (on_submit_demo v p)) = empty_cards
          \<and> cards (fst (on_submit_static v p)) = empty_cards
          \<and> results_hidden (fst (on_submit_demo v p))
          \<and> results_hidden (fst (on_submit_static v p))
          \<and> contactsAirline (fst (on_submit_demo v p)) = contactsAirline (reset_demo p)
          \<and> domContacts (fst (on_submit_demo v p)) = domContacts (reset_demo p)
          \<and> occContacts (fst (on_submit_demo v p)) = occContacts (reset_demo p)
          \<and> otherContacts (fst (on_submit_demo v p)) = otherContacts (reset_demo p))"
    using clear_block_cases [of "contactsAirline p"] clear_block_cases [of "domContacts p"]
      clear_block_cases [of "occContacts p"] clear_block_cases [of "otherContacts p"]
    by (simp add: on_submit_demo_def validate_demo_def on_submit_static_def validate_static_def
          reset_demo_simps reset_static_simps showSpinner_def setError_def Let_def)
  have resumed:
    "primary_data (primary ev) = Returns data
       \<and> seq (render_cards (now_adsb ev) data (cards p')) (render_rest (now_activity ev) data)
           = Done c \<longrightarrow>
     on_primary_static (now_adsb ev) (now_activity ev) (primary ev) p'
       = Some (showSpinner False (p'\<lparr>cards := c, results_hidden := False\<rparr>))
     \<and> (\<exists>q. resume_demo ev m p' = Some q \<and> cards q = c \<and> \<not> results_hidden q)"
    using on_primary_static_rendered [of "primary ev" data "now_adsb ev" p' "now_activity ev" c]
      resume_demo_rendered [of ev data p' c m]
    by blast
  from reset lookup_demo_resume [of ev v p] lookup_static_resume [of ev v p] resumed
  show ?thesis by (intro conjI) blast+
qed

theorem submit_resets_first_witness:
  "trim '' N123AB '' \<noteq> [] \<and> trim [CHR 0x20, CHR 0x09, CHR 0xC2, CHR 0xA0] = []
   \<and> on_submit_demo '' N123AB '' blank_page =
        ((reset_demo blank_page)\<lparr>requests := [API_BASE @ aircraft_path ''N123AB'']\<rparr>, Some ''N123AB'')
   \<and> cards (fst (on_submit_demo [CHR 0x20, CHR 0x09, CHR 0xC2, CHR 0xA0] blank_page)) = empty_cards
   \<and> primary_data (primary older_env) = Returns seen_payload
   \<and> (\<exists>c. seq (render_cards (now_adsb older_env) seen_payload empty_cards)
              (render_rest (now_activity older_env) seen_payload) = Done c
          \<and> on_primary_static (now_adsb older_env) (now_activity older_env) (primary older_env)
               newer_static
             = Some (showSpinner False (newer_static\<lparr>cards := c, results_hidden := False\<rparr>))
          \<and> (\<exists>q. resume_demo older_env ''N123AB'' newer_demo = Some q \<and> cards q = c
                 \<and> \<not> results_hidden q))"
proof -
  have t: "trim '' N123AB '' \<noteq> []" by (simp add: trim_tail)
  have r: "requests blank_page = []" by (simp add: blank_page_def)
  from submit_resets_first [of "'' N123AB ''" blank_page] t
  have "on_submit_demo '' N123AB '' blank_page =
          ((reset_demo blank_page)\<lparr>requests := requests blank_page @ [API_BASE @ aircraft_path (trim '' N123AB '')]\<rparr>,
           Some (trim '' N123AB ''))"
    by blast
  then have a: "on_submit_demo '' N123AB '' blank_page =
        ((reset_demo blank_page)\<lparr>requests := [API_BASE @ aircraft_path ''N123AB'']\<rparr>, Some ''N123AB'')"
    by (simp add: trim_tail r)
  from submit_resets_first [of "[CHR 0x20, CHR 0x09, CHR 0xC2, CHR 0xA0]" blank_page] trim_blank
  have b: "cards (fst (on_submit_demo [CHR 0x20, CHR 0x09, CHR 0xC2, CHR 0xA0] blank_page)) = empty_cards"
    by blast
  from older_rendered obtain c where
    c: "seq (render_cards (now_adsb older_env) seen_payload empty_cards)
          (render_rest (now_activity older_env) seen_payload) = Done c"
    by blast
  have cs: "seq (render_cards (now_adsb older_env) seen_payload (cards newer_static))
          (render_rest (now_activity older_env) seen_payload) = Done c"
    and cd: "seq (render_cards (now_adsb older_env) seen_payload (cards newer_demo))
          (render_rest (now_activity older_env) seen_payload) = Done c"
    using c by (simp_all add: newer_static_fields newer_demo_fields)
  from submit_resets_first [of _ _ older_env seen_payload newer_static c] older_primary cs
  have d: "on_primary_static (now_adsb older_env) (now_activity older_env) (primary older_env)
               newer_static
             = Some (showSpinner False (newer_static\<lparr>cards := c, results_hidden := False\<rparr>))"
    by blast
  from submit_resets_first [of _ _ older_env seen_payload newer_demo c "''N123AB''"]
    older_primary cd
  have e: "\<exists>q. resume_demo older_env ''N123AB'' newer_demo = Some q \<and> cards q = c
                 \<and> \<not> results_hidden q"
    by blast
  show ?thesis using t trim_blank a b older_primary c d e by blast
qed

end
